theory Spec2Isabelle
  imports Main
begin

section \<open>Strings and MAC-address helpers of ble-master.src.js\<close>

text \<open>
  JavaScript strings are modelled as HOL strings (lists of 8-bit characters).
  \<open>toLowerCase\<close> maps the upper-case letters of that range (A-Z and the Latin-1
  capitals) to their lower-case letters and leaves every other character alone.
\<close>

definition toLowerCase_char :: "char \<Rightarrow> char" where
  "toLowerCase_char c =
     (let n = (of_char c :: nat)
      in if (65 \<le> n \<and> n \<le> 90) \<or> (192 \<le> n \<and> n \<le> 222 \<and> n \<noteq> 215)
         then char_of (n + 32) else c)"

definition toLowerCase :: "string \<Rightarrow> string" where
  "toLowerCase s = map toLowerCase_char s"

text \<open>\<open>s.includes(sub)\<close> (the name is a keyword of Isabelle, hence the prefix): some suffix of \<open>s\<close> starts with \<open>sub\<close>.\<close>

fun str_includes :: "string \<Rightarrow> string \<Rightarrow> bool" where
  "str_includes [] sub = (sub = [])"
| "str_includes (c # cs) sub = (take (length sub) (c # cs) = sub \<or> str_includes cs sub)"

text \<open>
  \<open>s.split(sep)\<close> for a one-character separator: every occurrence of the separator
  ends a piece, and the result always has at least one piece (\<open>"".split(":")\<close> is
  \<open>[""]\<close>).
\<close>

fun split_on :: "char \<Rightarrow> string \<Rightarrow> string list" where
  "split_on sep [] = [[]]"
| "split_on sep (c # cs) =
     (if c = sep then [] # split_on sep cs
      else (case split_on sep cs of
              [] \<Rightarrow> [[c]]
            | w # ws \<Rightarrow> (c # w) # ws))"

text \<open>
  \<open>isMacAddressMatch(mac, pattern)\<close>: the loop over the octets, after the length
  check. The loop leaves with false at the first octet whose pattern is neither
  \<open>'xx'\<close> nor equal to the address octet.
\<close>

fun match_loop :: "string list \<Rightarrow> string list \<Rightarrow> bool" where
  "match_loop (m # ms) (p # ps) =
     (if p \<noteq> ''xx'' \<and> p \<noteq> m then False else match_loop ms ps)"
| "match_loop _ _ = True"

definition isMacAddressMatch :: "string \<Rightarrow> string \<Rightarrow> bool" where
  "isMacAddressMatch mac pattern =
     (let mac_bytes = split_on CHR '':'' mac;
          pattern_bytes = split_on CHR '':'' pattern
      in if length mac_bytes \<noteq> length pattern_bytes then False
         else match_loop mac_bytes pattern_bytes)"

text \<open>
  \<open>findMatchingMacAddress(devices, pattern)\<close>: \<open>for (const mac in devices)\<close> visits
  the keys of the registry object in its enumeration order; the registry is given
  here by its keys in that order. The result is \<open>None\<close> for the source's \<open>null\<close>.
\<close>

fun find_loop :: "string list \<Rightarrow> string \<Rightarrow> string option" where
  "find_loop [] pattern = None"
| "find_loop (mac # macs) pattern =
     (if isMacAddressMatch mac pattern then Some mac else find_loop macs pattern)"

definition findMatchingMacAddress :: "string list \<Rightarrow> string \<Rightarrow> string option" where
  "findMatchingMacAddress device_keys pattern = find_loop device_keys (toLowerCase pattern)"

text \<open>
  \<open>isValidMacAddress(mac)\<close>: the regular expression
  \<^verbatim>\<open>/^[0-9A-Fa-f]{2}([-:])[0-9A-Fa-f]{2}(\1[0-9A-Fa-f]{2}){4}$/\<close>
  accepts exactly the strings of 17 characters whose positions 2, 5, 8, 11 and 14
  hold one and the same separator, a dash or a colon, and whose other positions
  hold hexadecimal digits.
\<close>

definition is_hex_digit :: "char \<Rightarrow> bool" where
  "is_hex_digit c =
     (let n = (of_char c :: nat)
      in (48 \<le> n \<and> n \<le> 57) \<or> (65 \<le> n \<and> n \<le> 70) \<or> (97 \<le> n \<and> n \<le> 102))"

definition isValidMacAddress :: "string \<Rightarrow> bool" where
  "isValidMacAddress mac =
     (length mac = 17 \<and>
      (mac ! 2 = CHR ''-'' \<or> mac ! 2 = CHR '':'') \<and>
      list_all (\<lambda>i. if i mod 3 = 2 then mac ! i = mac ! 2 else is_hex_digit (mac ! i))
               [0 ..< 17])"

text \<open>
  \<open>parseInt(s, 16)\<close>: leading white space is skipped, then an optional sign and an
  optional \<open>0x\<close> prefix, then the longest run of hexadecimal digits is read; \<open>None\<close>
  is NaN (no digit). The rounding of values beyond \<open>2^53\<close> to a double is not
  modelled. \<open>toUint8\<close> is the conversion that storing into a \<open>Uint8Array\<close> applies.
\<close>

definition is_js_whitespace :: "char \<Rightarrow> bool" where
  "is_js_whitespace c =
     (let n = (of_char c :: nat) in (9 \<le> n \<and> n \<le> 13) \<or> n = 32 \<or> n = 160)"

definition hex_digit_value :: "char \<Rightarrow> nat" where
  "hex_digit_value c =
     (let n = (of_char c :: nat)
      in if 48 \<le> n \<and> n \<le> 57 then n - 48
         else if 65 \<le> n \<and> n \<le> 70 then n - 55
         else n - 87)"

fun hex_run_value :: "nat \<Rightarrow> string \<Rightarrow> nat" where
  "hex_run_value acc [] = acc"
| "hex_run_value acc (c # cs) =
     (if is_hex_digit c then hex_run_value (16 * acc + hex_digit_value c) cs else acc)"

definition parseInt16 :: "string \<Rightarrow> int option" where
  "parseInt16 s =
     (let s1 = dropWhile is_js_whitespace s;
          negative = (s1 \<noteq> [] \<and> hd s1 = CHR ''-'');
          s2 = (if s1 \<noteq> [] \<and> (hd s1 = CHR ''-'' \<or> hd s1 = CHR ''+'') then tl s1 else s1);
          s3 = (if take 2 s2 = ''0x'' \<or> take 2 s2 = ''0X'' then drop 2 s2 else s2)
      in if s3 = [] \<or> \<not> is_hex_digit (hd s3) then None
         else Some ((if negative then - 1 else 1) * int (hex_run_value 0 s3)))"

definition toUint8 :: "int option \<Rightarrow> nat" where
  "toUint8 v = (case v of None \<Rightarrow> 0 | Some n \<Rightarrow> nat (n mod 256))"

text \<open>\<open>mac2ab(mac)\<close>: the bytes of the \<open>ArrayBuffer\<close>, one per colon-separated piece.\<close>

definition mac2ab :: "string \<Rightarrow> nat list" where
  "mac2ab mac = map (\<lambda>byte. toUint8 (parseInt16 byte)) (split_on CHR '':'' mac)"

section \<open>The state of the module\<close>

text \<open>
  An entry of the \<open>#devices\<close> registry. \<open>None\<close> stands for a property that is
  \<open>undefined\<close>; \<open>connect_id\<close> is \<open>None\<close> whenever it is not a number. An absent
  \<open>is_connected\<close> is falsy, hence \<open>False\<close>.
\<close>

record device =
  dev_name :: "string option"
  connect_id :: "int option"
  is_connected :: bool
  profile_pid :: "int option"

datatype event_kind =
    CharaReadComplete | CharaValueArrived | CharaWriteComplete
  | DescReadComplete | DescValueArrived | DescWriteComplete
  | CharaNotification | ServiceChangeBegin | ServiceChangeEnd

text \<open>The calls into the native transport \<open>hmBle\<close>, with their arguments.\<close>

datatype transport_call =
    MstConnect "nat list"
  | MstDisconnect "int option"
  | MstStopScan
  | MstOffAllCb
  | MstDestroyProfileInstance int
  | MstOnEvent event_kind
  | MstWriteCharacteristic int string "nat list" nat
  | MstWriteCharacteristicWithoutResponse int string "nat list" nat
  | MstWriteDescriptor int string string "nat list" nat
  | MstReadCharacteristic int string
  | MstReadDescriptor int string "string option"

record connect_response =
  connected :: bool
  status :: string

text \<open>
  What the module does to the outside, in the order in which it happens: a call
  into the transport, an invocation of the \<open>response_callback\<close> of \<open>connect\<close>, and
  an invocation of the continuation that the queue hands to an operation (with the
  error string, \<open>None\<close> when it is called without argument).
\<close>

datatype trace_event =
    Transport transport_call
  | ConnectCallback connect_response
  | Continuation "string option"

text \<open>
  The static callback slots and completion flags of class \<open>On\<close>. A registered
  handler is a JavaScript function, given here by a number that identifies it;
  \<open>None\<close> is \<open>null\<close>.
\<close>

type_synonym handler = nat

record on_callbacks =
  cb_charaReadComplete :: "handler option"
  cb_charaValueArrived :: "handler option"
  cb_charaWriteComplete :: "handler option"
  cb_descReadComplete :: "handler option"
  cb_descValueArrived :: "handler option"
  cb_descWriteComplete :: "handler option"
  cb_charaNotification :: "handler option"
  cb_serviceChangeBegin :: "handler option"
  cb_serviceChangeEnd :: "handler option"

record on_flags =
  chara_write_complete_flag :: bool
  desc_write_complete_flag :: bool
  chara_read_complete_flag :: bool
  desc_read_complete_flag :: bool

text \<open>The data that \<open>write.*\<close> accepts: a string, an \<open>ArrayBuffer\<close> or a \<open>Uint8Array\<close>.\<close>

datatype write_data =
    DString string
  | DArrayBuffer "nat list"
  | DUint8Array "nat list"

text \<open>
  The operations that the methods of \<open>Write\<close> and \<open>Read\<close> enqueue, named after the
  private method their \<open>execute\<close> closure calls, with the arguments it passes.
\<close>

datatype operation =
    PerformCharaWrite string write_data bool
  | PerformDescriptorWrite string string write_data
  | PerformReadOperation string bool

text \<open>
  A pending \<open>setTimeout(cb_check_completion, check_interval)\<close>: the closure holds
  the kind of wait, what it distinguishes (\<open>operation_type === "char"\<close> for a write,
  \<open>is_descriptor\<close> for a read) and \<open>start_time\<close>.
\<close>

datatype waiter =
    WriteWaiter bool int
  | ReadWaiter bool int

text \<open>
  The whole state: the private fields of the \<open>BLEMaster\<close> instance, whether its
  \<open>on\<close> and \<open>off\<close> helpers exist (\<open>on_pid\<close> is the profile handle held by \<open>on\<close>),
  the statics of \<open>On\<close>, the \<open>QueueManager\<close>, the timers pending in the host (each
  with the time at which it is due), the host's clock \<open>Date.now()\<close> in
  milliseconds, and the trace. The registry is an object; it is
  given by its entries in enumeration order.
\<close>

record ble =
  devices :: "(string \<times> device) list"
  last_connected_mac :: "string option"
  connection_in_progress :: bool
  is_scanning :: bool
  on_pid :: "int option"
  off_defined :: bool
  callbacks :: on_callbacks
  flags :: on_flags
  operation_queue_arr :: "operation list"
  is_processing :: bool
  timers :: "(int \<times> waiter) list"
  now :: int
  trace :: "trace_event list"

definition no_callbacks :: on_callbacks where
  "no_callbacks =
     \<lparr>cb_charaReadComplete = None, cb_charaValueArrived = None,
      cb_charaWriteComplete = None, cb_descReadComplete = None,
      cb_descValueArrived = None, cb_descWriteComplete = None,
      cb_charaNotification = None, cb_serviceChangeBegin = None,
      cb_serviceChangeEnd = None\<rparr>"

definition no_flags :: on_flags where
  "no_flags =
     \<lparr>chara_write_complete_flag = False, desc_write_complete_flag = False,
      chara_read_complete_flag = False, desc_read_complete_flag = False\<rparr>"

text \<open>The state after \<open>new BLEMaster()\<close> in a freshly loaded module, at clock \<open>t\<close>.\<close>

definition new_BLEMaster :: "int \<Rightarrow> ble" where
  "new_BLEMaster t =
     \<lparr>devices = [], last_connected_mac = None, connection_in_progress = False,
      is_scanning = False, on_pid = None, off_defined = False,
      callbacks = no_callbacks, flags = no_flags,
      operation_queue_arr = [], is_processing = False, timers = [],
      now = t, trace = []\<rparr>"

definition emit :: "trace_event \<Rightarrow> ble \<Rightarrow> ble" where
  "emit e st = st\<lparr>trace := trace st @ [e]\<rparr>"

text \<open>
  Reading \<open>this.#devices[mac]\<close> and writing \<open>this.#devices[mac] = d\<close>: a new key goes
  to the end of the enumeration order, an existing key keeps its place (the keys
  are addresses, not array indices, which an object would enumerate first).
\<close>

definition get_device :: "ble \<Rightarrow> string \<Rightarrow> device option" where
  "get_device st mac = map_of (devices st) mac"

fun set_entry :: "string \<Rightarrow> device \<Rightarrow> (string \<times> device) list \<Rightarrow> (string \<times> device) list" where
  "set_entry mac d [] = [(mac, d)]"
| "set_entry mac d ((k, v) # rest) =
     (if k = mac then (k, d) # rest else (k, v) # set_entry mac d rest)"

definition set_device :: "string \<Rightarrow> device \<Rightarrow> ble \<Rightarrow> ble" where
  "set_device mac d st = st\<lparr>devices := set_entry mac d (devices st)\<rparr>"

text \<open>
  \<open>#getCurrentlyConnectedDevice()\<close>: \<open>null\<close> when \<open>#last_connected_mac\<close> is falsy
  (\<open>null\<close> or the empty string), else the registry entry, which may be \<open>undefined\<close>.
  Both are \<open>None\<close> here; every caller only tests the result for truth.
\<close>

definition getCurrentlyConnectedDevice :: "ble \<Rightarrow> device option" where
  "getCurrentlyConnectedDevice st =
     (case last_connected_mac st of
        None \<Rightarrow> None
      | Some mac \<Rightarrow> if mac = [] then None else get_device st mac)"

text \<open>\<open>get.isConnected()\<close>: \<open>device && device.is_connected\<close>, as a truth value.\<close>

definition isConnected :: "ble \<Rightarrow> bool" where
  "isConnected st =
     (case getCurrentlyConnectedDevice st of None \<Rightarrow> False | Some device \<Rightarrow> is_connected device)"

section \<open>connect\<close>

text \<open>
  An exception that a method of the module throws. Reading an identifier that no
  scope declares throws a \<open>ReferenceError\<close>.
\<close>

datatype js_error = ReferenceError string | TypeError string

text \<open>
  The identifiers that the body of \<open>connect\<close> can resolve: its parameters, the
  declarations at the top level of the module (the import, the constants, the
  classes and the functions), and whatever the host defines globally. The module
  is an ECMAScript module, so the host's global names are the only ones that the
  file does not show; they are a parameter.
\<close>

definition connect_parameters :: "string list" where
  "connect_parameters = [''dev_addr'', ''response_callback'']"

definition module_declarations :: "string list" where
  "module_declarations =
     [''hmBle'', ''DEBUG_LOG_LEVEL'', ''SHORT_DELAY'', ''BX_CORE_CODES'', ''ERR_PREFIX'',
      ''WARN_PREFIX'', ''ERR'', ''BLEMaster'', ''QueueManager'', ''Write'', ''Read'', ''On'',
      ''Off'', ''Get'', ''debugLog'', ''str2ab_with_len'', ''ab2mac'', ''mac2ab'',
      ''ab2str_stripped'', ''data2ab'', ''arr2ab'', ''ab2arr'', ''bytes2str'',
      ''isValidMacAddress'', ''findMatchingMacAddress'', ''isMacAddressMatch'', ''ab2hex'',
      ''ab2num'', ''ab2str'']"

definition resolves :: "string list \<Rightarrow> string \<Rightarrow> bool" where
  "resolves host_globals x =
     (x \<in> set connect_parameters \<or> x \<in> set module_declarations \<or> x \<in> set host_globals)"

text \<open>
  The arguments of a call are evaluated from left to right before the call; the
  first identifier that does not resolve throws.
\<close>

fun first_unresolved :: "string list \<Rightarrow> string list \<Rightarrow> string option" where
  "first_unresolved host_globals [] = None"
| "first_unresolved host_globals (x # xs) =
     (if resolves host_globals x then first_unresolved host_globals xs else Some x)"

definition respond :: "bool \<Rightarrow> string \<Rightarrow> ble \<Rightarrow> ble" where
  "respond c s st = emit (ConnectCallback \<lparr>connected = c, status = s\<rparr>) st"

text \<open>
  \<open>#initiateConnection(dev_addr, response_callback)\<close>, up to the return of
  \<open>hmBle.mstConnect\<close>: the flag is set and the transport is called once.
\<close>

definition initiateConnection :: "string \<Rightarrow> ble \<Rightarrow> ble" where
  "initiateConnection dev_addr st =
     emit (Transport (MstConnect (mac2ab dev_addr))) (st\<lparr>connection_in_progress := True\<rparr>)"

text \<open>
  \<open>connect(dev_addr, response_callback)\<close>. The result is what the call does (it
  throws, or it returns a boolean) and the state it leaves. \<open>response_callback\<close> is
  a function; its invocations go to the trace. A falsy \<open>dev_addr\<close> is the empty
  string; a pattern that matches nothing finds \<open>null\<close>, and a matched key that is
  the empty string is falsy as well.
\<close>

definition connect :: "string list \<Rightarrow> string \<Rightarrow> ble \<Rightarrow> (js_error + bool) \<times> ble" where
  "connect host_globals dev_addr_arg st =
     (if dev_addr_arg = [] then (Inr False, st)
      else
        let lowered = toLowerCase dev_addr_arg;
            resolved =
              (if str_includes lowered ''xx''
               then (case findMatchingMacAddress (map fst (devices st)) lowered of
                       None \<Rightarrow> None
                     | Some matched_dev_addr \<Rightarrow>
                         if matched_dev_addr = [] then None else Some matched_dev_addr)
               else Some lowered)
        in case resolved of
             None \<Rightarrow> (Inr False, respond False ''device not found'' st)
           | Some dev_addr \<Rightarrow>
               if isConnected st then (Inr True, respond True ''connected'' st)
               else if \<not> isValidMacAddress dev_addr
                    then (Inr False, respond False ''invalid mac'' st)
               else if connection_in_progress st
                    then (Inr False, respond False ''in progress'' st)
               else if (case get_device st dev_addr of
                          None \<Rightarrow> False | Some d \<Rightarrow> is_connected d)
                    then (Inr True, respond True ''connected'' st)
               else (case first_unresolved host_globals
                            [''dev_addr'', ''response_callback'', ''attempt'',
                             ''max_attempts'', ''timeout_duration''] of
                       Some x \<Rightarrow> (Inl (ReferenceError x), st)
                     | None \<Rightarrow> (Inr True, initiateConnection dev_addr st)))"

text \<open>
  The callback that \<open>#initiateConnection\<close> hands to \<open>hmBle.mstConnect\<close>, run when
  the transport reports the outcome \<open>code\<close> (0 is success) with the connection
  id \<open>cid\<close>; it ends with \<open>#handleSuccessfulConnection\<close> on success. The address
  that the transport reports is only logged.
\<close>

definition handleSuccessfulConnection :: "string \<Rightarrow> int option \<Rightarrow> ble \<Rightarrow> ble" where
  "handleSuccessfulConnection dev_addr cid st =
     (let old = (case get_device st dev_addr of
                   None \<Rightarrow> \<lparr>dev_name = None, connect_id = None, is_connected = False,
                            profile_pid = None\<rparr>
                 | Some d \<Rightarrow> d)
      in (set_device dev_addr (old\<lparr>connect_id := cid, is_connected := True\<rparr>) st)
           \<lparr>last_connected_mac := Some dev_addr\<rparr>)"

definition mstConnect_callback :: "string \<Rightarrow> int \<Rightarrow> int option \<Rightarrow> ble \<Rightarrow> ble" where
  "mstConnect_callback dev_addr code cid st =
     (let st1 =
        (if code = 0 then
           let st2 = (case get_device st dev_addr of
                        None \<Rightarrow> set_device dev_addr
                                  \<lparr>dev_name = Some ''default'', connect_id = cid,
                                   is_connected = True, profile_pid = None\<rparr> st
                      | Some d \<Rightarrow> st)
           in respond True ''connected'' (handleSuccessfulConnection dev_addr cid st2)
         else respond False (if code = 1 then ''failed'' else ''disconnected'') st)
      in st1\<lparr>connection_in_progress := False\<rparr>)"

text \<open>
  The success branch of the \<open>mstOnPrepare\<close> callback of \<open>startListener\<close>: the profile
  handle is stored on the tracked device, and fresh \<open>On\<close> and \<open>Off\<close> helpers are made.
  Writing the handle throws when there is no tracked registry entry.
\<close>

definition mstOnPrepare_success :: "int \<Rightarrow> ble \<Rightarrow> js_error + ble" where
  "mstOnPrepare_success profile st =
     (case last_connected_mac st of
        None \<Rightarrow> Inl (TypeError ''profile_pid'')
      | Some mac \<Rightarrow>
          (case get_device st mac of
             None \<Rightarrow> Inl (TypeError ''profile_pid'')
           | Some d \<Rightarrow>
               Inr ((set_device mac (d\<lparr>profile_pid := Some profile\<rparr>) st)
                      \<lparr>on_pid := Some profile, off_defined := True\<rparr>)))"

text \<open>
  \<open>on.charaReadComplete(callback)\<close> with a function for \<open>callback\<close>: the static slot
  is set and the handler is registered with the transport.
\<close>

definition on_charaReadComplete :: "handler \<Rightarrow> ble \<Rightarrow> ble" where
  "on_charaReadComplete h st =
     emit (Transport (MstOnEvent CharaReadComplete))
          (st\<lparr>callbacks := (callbacks st)\<lparr>cb_charaReadComplete := Some h\<rparr>\<rparr>)"

text \<open>
  \<open>disconnect()\<close>; \<open>ok\<close> is what \<open>hmBle.mstDisconnect\<close> returns.
\<close>

definition disconnect :: "bool \<Rightarrow> ble \<Rightarrow> bool \<times> ble" where
  "disconnect ok st =
     (case last_connected_mac st of
        None \<Rightarrow> (False, st)
      | Some mac \<Rightarrow>
          if mac = [] then (False, st)
          else (case get_device st mac of
                  None \<Rightarrow> (False, st)
                | Some d \<Rightarrow>
                    if \<not> is_connected d then (False, st)
                    else let st1 = emit (Transport (MstDisconnect (connect_id d))) st
                         in (ok, if ok then st1\<lparr>last_connected_mac := None\<rparr> else st1)))"

section \<open>quit\<close>

text \<open>\<open>stopScan()\<close>, for its effect on the state.\<close>

definition stopScan :: "ble \<Rightarrow> ble" where
  "stopScan st =
     (if is_scanning st then emit (Transport MstStopScan) (st\<lparr>is_scanning := False\<rparr>) else st)"

text \<open>\<open>#disconnectDevice(device)\<close>, for the registry entry \<open>device\<close> stored under \<open>mac\<close>.\<close>

definition disconnectDevice :: "string \<Rightarrow> device \<Rightarrow> ble \<Rightarrow> ble" where
  "disconnectDevice mac d st =
     (let st1 = emit (Transport MstOffAllCb) st;
          st2 = (case profile_pid d of
                   None \<Rightarrow> st1
                 | Some pid \<Rightarrow> emit (Transport (MstDestroyProfileInstance pid)) st1);
          st3 = emit (Transport (MstDisconnect (connect_id d))) st2
      in set_device mac (d\<lparr>is_connected := False\<rparr>) st3)"

text \<open>\<open>off.deregisterAll()\<close>: every static callback slot of \<open>On\<close> becomes \<open>null\<close>.\<close>

definition deregisterAll :: "ble \<Rightarrow> ble" where
  "deregisterAll st =
     st\<lparr>callbacks := (callbacks st)
          \<lparr>cb_charaReadComplete := None, cb_charaValueArrived := None,
           cb_charaWriteComplete := None, cb_descReadComplete := None,
           cb_descValueArrived := None, cb_descWriteComplete := None,
           cb_charaNotification := None, cb_serviceChangeBegin := None,
           cb_serviceChangeEnd := None\<rparr>\<rparr>"

text \<open>\<open>quit()\<close>.\<close>

definition quit :: "ble \<Rightarrow> ble" where
  "quit st =
     (case last_connected_mac st of
        None \<Rightarrow> st
      | Some mac \<Rightarrow>
          if mac = [] then st
          else
            let st1 = (case get_device st mac of
                         None \<Rightarrow> st
                       | Some d \<Rightarrow> if is_connected d then disconnectDevice mac d st else st);
                st2 = (if off_defined st1 then deregisterAll st1 else st1);
                st3 = st2\<lparr>last_connected_mac := None\<rparr>
            in if is_scanning st3 then stopScan st3 else st3)"

section \<open>generateProfileObject\<close>

definition ERR_PREFIX :: string where
  "ERR_PREFIX = ''ERR: ''"

definition ERR_DEVICE_NOT_CONNECTED :: string where
  "ERR_DEVICE_NOT_CONNECTED =
     ERR_PREFIX @ ''Device not connected. Please connect before attempting this operation.''"

definition ERR_DEVICE_NOT_FOUND :: string where
  "ERR_DEVICE_NOT_FOUND = ERR_PREFIX @ ''Device not found''"

definition ERR_INVALID_MAC_ADDR :: string where
  "ERR_INVALID_MAC_ADDR = ERR_PREFIX @ ''Invalid MAC address format''"

text \<open>
  The nodes of the profile object, from the descriptors up. A characteristic has
  its \<open>list\<close> property only when it has descriptors. The two objects that the
  method can return are the two constructors of \<open>profile_result\<close>: the object
  \<open>{success: false, error: ...}\<close> and the profile object.
\<close>

record descriptor_node =
  desc_uuid :: string
  desc_permission :: int

record characteristic_node =
  chara_uuid :: string
  chara_permission :: int
  chara_desc :: nat
  chara_len :: nat
  chara_list :: "descriptor_node list option"

record service_node =
  serv_uuid :: string
  serv_permission :: int
  serv_len1 :: nat
  serv_len2 :: nat
  serv_list :: "characteristic_node list"

record service_list_node =
  sl_uuid :: bool
  sl_size :: nat
  sl_len :: nat
  sl_list :: "service_node list"

record profile_object =
  po_pair :: bool
  po_id :: int
  po_profile :: string
  po_dev :: "nat list"
  po_len :: nat
  po_list :: "service_list_node list"

datatype profile_result =
    Failure string
  | Profile profile_object

text \<open>
  An entry of the \<open>permissions\<close> argument is an object of the \<open>PERMISSIONS\<close> table
  (a description and a numeric value). The \<open>services\<close> argument is given by its
  entries in the order of \<open>Object.entries\<close>, at both levels. The lookup
  \<open>permissions[uuid]\<close> is modelled for keys that are UUIDs; a key that names a member
  of \<open>Object.prototype\<close> (such as \<open>toString\<close>) would find that member even in the
  empty object, and is outside the model.
\<close>

record permission =
  description :: string
  perm_value :: int

type_synonym services = "(string \<times> (string \<times> string list) list) list"

definition permission_of :: "(string \<Rightarrow> permission option) \<Rightarrow> string \<Rightarrow> int" where
  "permission_of permissions uuid =
     (case permissions uuid of None \<Rightarrow> 32 | Some p \<Rightarrow> perm_value p)"

definition make_descriptor :: "(string \<Rightarrow> permission option) \<Rightarrow> string \<Rightarrow> descriptor_node" where
  "make_descriptor permissions descriptor_uuid =
     \<lparr>desc_uuid = descriptor_uuid, desc_permission = permission_of permissions descriptor_uuid\<rparr>"

definition make_characteristic ::
  "(string \<Rightarrow> permission option) \<Rightarrow> string \<times> string list \<Rightarrow> characteristic_node" where
  "make_characteristic permissions entry =
     (case entry of (uuid, desc_uuids) \<Rightarrow>
        \<lparr>chara_uuid = uuid,
         chara_permission = permission_of permissions uuid,
         chara_desc = length desc_uuids,
         chara_len = length desc_uuids,
         chara_list = (if length desc_uuids > 0
                       then Some (map (make_descriptor permissions) desc_uuids)
                       else None)\<rparr>)"

definition make_service ::
  "(string \<Rightarrow> permission option) \<Rightarrow> string \<times> (string \<times> string list) list \<Rightarrow> service_node" where
  "make_service permissions entry =
     (case entry of (uuid, characteristics) \<Rightarrow>
        \<lparr>serv_uuid = uuid,
         serv_permission = 0,
         serv_len1 = length characteristics,
         serv_len2 = length characteristics,
         serv_list = map (make_characteristic permissions) characteristics\<rparr>)"

definition generateProfileObject ::
  "services \<Rightarrow> (string \<Rightarrow> permission option) \<Rightarrow> ble \<Rightarrow> profile_result" where
  "generateProfileObject servs permissions st =
     (case last_connected_mac st of
        None \<Rightarrow> Failure ERR_DEVICE_NOT_CONNECTED
      | Some dev_addr \<Rightarrow>
          if dev_addr = [] then Failure ERR_DEVICE_NOT_CONNECTED
          else (case get_device st dev_addr of
                  None \<Rightarrow> Failure (ERR_DEVICE_NOT_FOUND @ '': '' @ dev_addr)
                | Some d \<Rightarrow>
                    if \<not> is_connected d then Failure ERR_DEVICE_NOT_CONNECTED
                    else (case connect_id d of
                            None \<Rightarrow> Failure ERR_DEVICE_NOT_CONNECTED
                          | Some cid \<Rightarrow>
                              let dev = mac2ab dev_addr
                              in if length dev \<noteq> 6
                                 then Failure (ERR_INVALID_MAC_ADDR @ '': '' @ dev_addr)
                                 else
                                   let serv_len = length servs
                                   in Profile
                                        \<lparr>po_pair = True,
                                         po_id = cid,
                                         po_profile =
                                           (case dev_name d of
                                              None \<Rightarrow> ''undefined''
                                            | Some n \<Rightarrow> if n = [] then ''undefined'' else n),
                                         po_dev = dev,
                                         po_len = 1,
                                         po_list =
                                           [\<lparr>sl_uuid = True, sl_size = serv_len,
                                             sl_len = serv_len,
                                             sl_list = map (make_service permissions) servs\<rparr>]\<rparr>)))"

section \<open>The operation queue\<close>

definition ERR_CHAR_WRITE_OPERATION_TIMEOUT :: string where
  "ERR_CHAR_WRITE_OPERATION_TIMEOUT =
     ERR_PREFIX @ ''Characteristic write operation timeout. Make sure to subscribe to the .on.charaWriteComplete(...) event!''"

definition ERR_CHAR_READ_OPERATION_TIMEOUT :: string where
  "ERR_CHAR_READ_OPERATION_TIMEOUT =
     ERR_PREFIX @ ''Characteristic read operation timeout. Make sure to subscribe to either the .on.charaValueArrived(...) or .on.charaReadComplete(...) event!''"

definition ERR_DESC_WRITE_OPERATION_TIMEOUT :: string where
  "ERR_DESC_WRITE_OPERATION_TIMEOUT =
     ERR_PREFIX @ ''Descriptor write operation timeout. Make sure to subscribe to the .on.descWriteComplete(...) event!''"

definition ERR_DESC_READ_OPERATION_TIMEOUT :: string where
  "ERR_DESC_READ_OPERATION_TIMEOUT =
     ERR_PREFIX @ ''Descriptor read operation timeout. Make sure to subscribe to either the .on.descValueArrived(...) or .on.descReadComplete(...) event!''"

text \<open>The statics of \<open>QueueManager\<close>, in milliseconds.\<close>

definition queue_timeout :: int where
  "queue_timeout = 5000"

definition queue_check_interval :: int where
  "queue_check_interval = 100"

text \<open>
  \<open>data2ab(data)\<close>: the bytes of the buffer. A string of hexadecimal digits is read
  two digits at a time (a last single digit alone), any other string gives its
  character codes; an \<open>ArrayBuffer\<close> is passed through; a \<open>Uint8Array\<close>, given by
  the bytes of its underlying buffer, yields that buffer.
\<close>

fun hex_string_bytes :: "string \<Rightarrow> nat list" where
  "hex_string_bytes [] = []"
| "hex_string_bytes [a] = [toUint8 (parseInt16 [a])]"
| "hex_string_bytes (a # b # cs) = toUint8 (parseInt16 [a, b]) # hex_string_bytes cs"

definition data2ab :: "write_data \<Rightarrow> nat list" where
  "data2ab data =
     (case data of
        DArrayBuffer bytes \<Rightarrow> bytes
      | DUint8Array buffer \<Rightarrow> buffer
      | DString str \<Rightarrow>
          if str \<noteq> [] \<and> list_all is_hex_digit str then hex_string_bytes str
          else map of_char str)"

text \<open>
  \<open>setTimeout(cb_check_completion, check_interval)\<close>: the timer is due one polling
  interval from now. The functions below return whether the continuation of the
  operation was called, and the state; the continuation itself is the arrow
  function of \<open>processQueue\<close>, and it runs where \<open>processQueue\<close> and \<open>timer_fires\<close>
  look at that boolean.
\<close>

definition set_timeout :: "waiter \<Rightarrow> ble \<Rightarrow> ble" where
  "set_timeout w st = st\<lparr>timers := timers st @ [(now st + queue_check_interval, w)]\<rparr>"

text \<open>
  \<open>cb_check_completion\<close> of \<open>#waitForWriteCompletion(callback, operation_type)\<close>;
  \<open>is_char\<close> is \<open>operation_type === "char"\<close>.
\<close>

definition cb_check_completion_write :: "bool \<Rightarrow> int \<Rightarrow> ble \<Rightarrow> bool \<times> ble" where
  "cb_check_completion_write is_char start_time st =
     (if now st - start_time > queue_timeout then
        (if is_char
         then (True, emit (Continuation (Some ERR_CHAR_WRITE_OPERATION_TIMEOUT)) st)
         else (True, emit (Continuation (Some ERR_DESC_WRITE_OPERATION_TIMEOUT)) st))
      else if desc_write_complete_flag (flags st) \<or> chara_write_complete_flag (flags st) then
        (True, emit (Continuation None)
                 (st\<lparr>flags := (flags st)\<lparr>desc_write_complete_flag := False,
                                           chara_write_complete_flag := False\<rparr>\<rparr>))
      else (False, set_timeout (WriteWaiter is_char start_time) st))"

definition waitForWriteCompletion :: "bool \<Rightarrow> ble \<Rightarrow> bool \<times> ble" where
  "waitForWriteCompletion is_char st = cb_check_completion_write is_char (now st) st"

text \<open>\<open>cb_check_completion\<close> of \<open>#waitForReadCompletion(is_descriptor, callback)\<close>.\<close>

definition cb_check_completion_read :: "bool \<Rightarrow> int \<Rightarrow> ble \<Rightarrow> bool \<times> ble" where
  "cb_check_completion_read is_descriptor start_time st =
     (if now st - start_time > queue_timeout then
        (if is_descriptor
         then (True, emit (Continuation (Some ERR_DESC_READ_OPERATION_TIMEOUT)) st)
         else (True, emit (Continuation (Some ERR_CHAR_READ_OPERATION_TIMEOUT)) st))
      else if (is_descriptor \<and> desc_read_complete_flag (flags st))
              \<or> (\<not> is_descriptor \<and> chara_read_complete_flag (flags st)) then
        (True, emit (Continuation None)
                 (st\<lparr>flags := (flags st)\<lparr>desc_read_complete_flag := False,
                                           chara_read_complete_flag := False\<rparr>\<rparr>))
      else (False, set_timeout (ReadWaiter is_descriptor start_time) st))"

definition waitForReadCompletion :: "bool \<Rightarrow> ble \<Rightarrow> bool \<times> ble" where
  "waitForReadCompletion is_descriptor st = cb_check_completion_read is_descriptor (now st) st"

text \<open>The three private methods that issue the transport call of an operation.\<close>

definition performCharaWrite :: "string \<Rightarrow> write_data \<Rightarrow> bool \<Rightarrow> ble \<Rightarrow> bool \<times> ble" where
  "performCharaWrite uuid data write_without_response st =
     (case getCurrentlyConnectedDevice st of
        None \<Rightarrow> (True, emit (Continuation None) st)
      | Some d \<Rightarrow>
          (case profile_pid d of
             None \<Rightarrow> (True, emit (Continuation None) st)
           | Some pid \<Rightarrow>
               let data_ab = data2ab data
               in if write_without_response then
                    (True, emit (Continuation None)
                             (emit (Transport (MstWriteCharacteristicWithoutResponse
                                                 pid uuid data_ab (length data_ab))) st))
                  else waitForWriteCompletion True
                         (emit (Transport (MstWriteCharacteristic
                                             pid uuid data_ab (length data_ab))) st)))"

definition performDescriptorWrite :: "string \<Rightarrow> string \<Rightarrow> write_data \<Rightarrow> ble \<Rightarrow> bool \<times> ble" where
  "performDescriptorWrite chara desc data st =
     (case getCurrentlyConnectedDevice st of
        None \<Rightarrow> (True, emit (Continuation None) st)
      | Some d \<Rightarrow>
          (case profile_pid d of
             None \<Rightarrow> (True, emit (Continuation None) st)
           | Some pid \<Rightarrow>
               let data_ab = data2ab data
               in waitForWriteCompletion False
                    (emit (Transport (MstWriteDescriptor
                                        pid chara desc data_ab (length data_ab))) st)))"

definition performReadOperation :: "string \<Rightarrow> bool \<Rightarrow> ble \<Rightarrow> bool \<times> ble" where
  "performReadOperation uuid is_descriptor st =
     (case getCurrentlyConnectedDevice st of
        None \<Rightarrow> (True, emit (Continuation None) st)
      | Some d \<Rightarrow>
          (case profile_pid d of
             None \<Rightarrow> (True, emit (Continuation None) st)
           | Some pid \<Rightarrow>
               let st1 =
                 (if is_descriptor then
                    let parts = split_on CHR ''-'' uuid
                    in emit (Transport (MstReadDescriptor pid (hd parts)
                               (if length parts > 1 then Some (parts ! 1) else None))) st
                  else emit (Transport (MstReadCharacteristic pid uuid)) st)
               in waitForReadCompletion is_descriptor st1))"

text \<open>\<open>operation.execute(callback)\<close>.\<close>

definition execute :: "operation \<Rightarrow> ble \<Rightarrow> bool \<times> ble" where
  "execute operation st =
     (case operation of
        PerformCharaWrite uuid data write_without_response \<Rightarrow>
          performCharaWrite uuid data write_without_response st
      | PerformDescriptorWrite chara desc data \<Rightarrow> performDescriptorWrite chara desc data st
      | PerformReadOperation uuid is_descriptor \<Rightarrow> performReadOperation uuid is_descriptor st)"

text \<open>
  \<open>QueueManager.processQueue()\<close>. When \<open>execute\<close> has called the continuation, the
  continuation has cleared \<open>is_processing\<close> and called \<open>processQueue\<close> again.
\<close>

function processQueue :: "ble \<Rightarrow> ble" where
  "processQueue st =
     (if is_processing st \<or> operation_queue_arr st = [] then st
      else
        let r = execute (hd (operation_queue_arr st))
                  (st\<lparr>is_processing := True,
                      operation_queue_arr := tl (operation_queue_arr st)\<rparr>)
        in if fst r then processQueue ((snd r)\<lparr>is_processing := False\<rparr>) else snd r)"
  by pat_completeness auto
termination
proof (relation "measure (\<lambda>st. length (operation_queue_arr st))")
  show "wf (measure (\<lambda>st. length (operation_queue_arr st)))" by simp
next
  fix st :: ble and r :: "bool \<times> ble"
  assume busy: "\<not> (is_processing st \<or> operation_queue_arr st = [])"
    and r: "r = execute (hd (operation_queue_arr st))
                  (st\<lparr>is_processing := True,
                      operation_queue_arr := tl (operation_queue_arr st)\<rparr>)"
  have "operation_queue_arr (snd (execute operation st')) = operation_queue_arr st'"
    for operation st'
    by (simp add: execute_def performCharaWrite_def performDescriptorWrite_def
          performReadOperation_def waitForWriteCompletion_def waitForReadCompletion_def
          cb_check_completion_write_def cb_check_completion_read_def emit_def
          set_timeout_def Let_def
          split: operation.splits option.splits)
  with busy r show "(snd r\<lparr>is_processing := False\<rparr>, st)
        \<in> measure (\<lambda>st. length (operation_queue_arr st))"
    by (cases "operation_queue_arr st") simp_all
qed

text \<open>The equation of \<open>processQueue\<close> would rewrite for ever; it is unfolded by hand.\<close>

declare processQueue.simps [simp del]

definition enqueueOperation :: "operation \<Rightarrow> ble \<Rightarrow> ble" where
  "enqueueOperation operation st =
     processQueue (st\<lparr>operation_queue_arr := operation_queue_arr st @ [operation]\<rparr>)"

text \<open>The public methods of \<open>write\<close> and \<open>read\<close>.\<close>

definition write_characteristic :: "string \<Rightarrow> write_data \<Rightarrow> bool \<Rightarrow> ble \<Rightarrow> ble" where
  "write_characteristic uuid data write_without_response st =
     enqueueOperation (PerformCharaWrite uuid data write_without_response) st"

definition write_descriptor :: "string \<Rightarrow> string \<Rightarrow> write_data \<Rightarrow> ble \<Rightarrow> ble" where
  "write_descriptor chara desc data st =
     enqueueOperation (PerformDescriptorWrite chara desc data) st"

definition enableCharaNotifications :: "string \<Rightarrow> bool \<Rightarrow> ble \<Rightarrow> ble" where
  "enableCharaNotifications chara enable st =
     enqueueOperation
       (PerformDescriptorWrite chara ''2902'' (DString (if enable then ''0100'' else ''0000''))) st"

definition read_characteristic :: "string \<Rightarrow> ble \<Rightarrow> ble" where
  "read_characteristic uuid st = enqueueOperation (PerformReadOperation uuid False) st"

definition read_descriptor :: "string \<Rightarrow> string \<Rightarrow> ble \<Rightarrow> ble" where
  "read_descriptor chara desc st =
     enqueueOperation (PerformReadOperation (chara @ ''-'' @ desc) True) st"

text \<open>
  The host runs the pending timer number \<open>i\<close>, which it never does before the timer
  is due: the closure \<open>cb_check_completion\<close> runs, and the continuation of the queue
  after it when it was called.
\<close>

definition run_waiter :: "waiter \<Rightarrow> ble \<Rightarrow> bool \<times> ble" where
  "run_waiter w st =
     (case w of
        WriteWaiter is_char start_time \<Rightarrow> cb_check_completion_write is_char start_time st
      | ReadWaiter is_descriptor start_time \<Rightarrow>
          cb_check_completion_read is_descriptor start_time st)"

definition timer_fires :: "nat \<Rightarrow> ble \<Rightarrow> ble" where
  "timer_fires i st =
     (if i < length (timers st) \<and> fst (timers st ! i) \<le> now st then
        let r = run_waiter (snd (timers st ! i))
                  (st\<lparr>timers := take i (timers st) @ drop (Suc i) (timers st)\<rparr>)
        in if fst r then processQueue ((snd r)\<lparr>is_processing := False\<rparr>) else snd r
      else st)"

text \<open>
  The handler that an \<open>On\<close> instance holding the profile handle \<open>instance_pid\<close>
  registers with the transport for an event kind, run on a push event that carries
  the handle \<open>profile\<close>: for the six read and write events it raises the
  completion flag. The user's callback that it then calls is not part of the module.
\<close>

definition on_handler :: "event_kind \<Rightarrow> int \<Rightarrow> int \<Rightarrow> ble \<Rightarrow> ble" where
  "on_handler kind instance_pid profile st =
     (if instance_pid = profile then
        (case kind of
           CharaReadComplete \<Rightarrow> st\<lparr>flags := (flags st)\<lparr>chara_read_complete_flag := True\<rparr>\<rparr>
         | CharaValueArrived \<Rightarrow> st\<lparr>flags := (flags st)\<lparr>chara_read_complete_flag := True\<rparr>\<rparr>
         | CharaWriteComplete \<Rightarrow> st\<lparr>flags := (flags st)\<lparr>chara_write_complete_flag := True\<rparr>\<rparr>
         | DescReadComplete \<Rightarrow> st\<lparr>flags := (flags st)\<lparr>desc_read_complete_flag := True\<rparr>\<rparr>
         | DescValueArrived \<Rightarrow> st\<lparr>flags := (flags st)\<lparr>desc_read_complete_flag := True\<rparr>\<rparr>
         | DescWriteComplete \<Rightarrow> st\<lparr>flags := (flags st)\<lparr>desc_write_complete_flag := True\<rparr>\<rparr>
         | CharaNotification \<Rightarrow> st
         | ServiceChangeBegin \<Rightarrow> st
         | ServiceChangeEnd \<Rightarrow> st)
      else st)"

text \<open>
  What can happen to the queue, one event after the other (the host runs every
  callback to completion): a caller enqueues an operation, the host runs a
  pending timer, the clock moves on, the transport pushes an event to a handler.
\<close>

datatype event =
    Enqueue operation
  | TimerFires nat
  | Advance nat
  | Push event_kind int int

fun step :: "event \<Rightarrow> ble \<Rightarrow> ble" where
  "step (Enqueue operation) st = enqueueOperation operation st"
| "step (TimerFires i) st = timer_fires i st"
| "step (Advance ms) st = st\<lparr>now := now st + int ms\<rparr>"
| "step (Push kind instance_pid profile) st = on_handler kind instance_pid profile st"

fun run :: "event list \<Rightarrow> ble \<Rightarrow> ble" where
  "run [] st = st"
| "run (e # es) st = run es (step e st)"

section \<open>Notions used to state the properties\<close>

text \<open>The default of the \<open>permissions\<close> parameter, the empty object.\<close>

definition no_permissions :: "string \<Rightarrow> permission option" where
  "no_permissions = Map.empty"

definition is_failure :: "profile_result \<Rightarrow> bool" where
  "is_failure r = (case r of Failure e \<Rightarrow> True | Profile po \<Rightarrow> False)"

text \<open>
  The global names that the code of the module itself relies on; a host that
  defines these and no others is the plainest one the module can run in.
\<close>

definition used_host_globals :: "string list" where
  "used_host_globals =
     [''console'', ''setTimeout'', ''Date'', ''JSON'', ''Object'', ''Array'', ''Set'',
      ''String'', ''Uint8Array'', ''ArrayBuffer'', ''parseInt'']"

text \<open>
  Example states: a device connected after a successful outcome of the transport;
  the same with a prepared profile and a subscription to one event; and that state
  after a successful \<open>disconnect()\<close>.
\<close>

definition connected_example :: ble where
  "connected_example = mstConnect_callback ''aa:bb:cc:dd:ee:ff'' 0 (Some 1) (new_BLEMaster 0)"

definition ready_example :: ble where
  "ready_example =
     (case mstOnPrepare_success 5 connected_example of
        Inl e \<Rightarrow> connected_example
      | Inr st \<Rightarrow> on_charaReadComplete 42 st)"

definition disconnected_example :: ble where
  "disconnected_example = snd (disconnect True ready_example)"

text \<open>A device connected under an address written with dashes, which the format check admits.\<close>

definition dash_example :: ble where
  "dash_example = mstConnect_callback ''aa-bb-cc-dd-ee-ff'' 0 (Some 1) (new_BLEMaster 0)"

text \<open>The transport calls of a trace, in order, and the call that an operation issues.\<close>

fun transport_calls :: "trace_event list \<Rightarrow> transport_call list" where
  "transport_calls [] = []"
| "transport_calls (Transport c # tr) = c # transport_calls tr"
| "transport_calls (e # tr) = transport_calls tr"

definition transport_call_of :: "int \<Rightarrow> operation \<Rightarrow> transport_call" where
  "transport_call_of pid operation =
     (case operation of
        PerformCharaWrite uuid data write_without_response \<Rightarrow>
          if write_without_response
          then MstWriteCharacteristicWithoutResponse pid uuid (data2ab data) (length (data2ab data))
          else MstWriteCharacteristic pid uuid (data2ab data) (length (data2ab data))
      | PerformDescriptorWrite chara desc data \<Rightarrow>
          MstWriteDescriptor pid chara desc (data2ab data) (length (data2ab data))
      | PerformReadOperation uuid is_descriptor \<Rightarrow>
          if is_descriptor
          then MstReadDescriptor pid (hd (split_on CHR ''-'' uuid))
                 (if length (split_on CHR ''-'' uuid) > 1
                  then Some (split_on CHR ''-'' uuid ! 1) else None)
          else MstReadCharacteristic pid uuid)"

fun enqueued :: "event list \<Rightarrow> operation list" where
  "enqueued [] = []"
| "enqueued (Enqueue operation # es) = operation # enqueued es"
| "enqueued (e # es) = enqueued es"

text \<open>
  Reading a trace from left to right: \<open>Some b\<close> says that no transport call was
  issued while an earlier one still waited for its continuation, and that \<open>b\<close>
  tells whether a call waits now; \<open>None\<close> says that a call was issued too early.
\<close>

fun track :: "bool option \<Rightarrow> trace_event \<Rightarrow> bool option" where
  "track None e = None"
| "track (Some b) (Transport c) = (if b then None else Some True)"
| "track (Some b) (Continuation r) = Some False"
| "track (Some b) (ConnectCallback r) = Some b"

definition one_at_a_time :: "trace_event list \<Rightarrow> bool" where
  "one_at_a_time tr = (foldl track (Some False) tr \<noteq> None)"

text \<open>
  Schedules of the host: after each of the given delays the first pending timer
  runs; \<open>exact_polls k\<close> is \<open>k\<close> rounds in which the timer runs exactly when it is due;
  \<open>settle n\<close> is \<open>n\<close> rounds, each longer than the timeout.
\<close>

fun polls :: "nat list \<Rightarrow> event list" where
  "polls [] = []"
| "polls (d # ds) = Advance d # TimerFires 0 # polls ds"

definition exact_polls :: "nat \<Rightarrow> event list" where
  "exact_polls k = polls (replicate k (nat queue_check_interval))"

definition settle :: "nat \<Rightarrow> event list" where
  "settle n = polls (replicate n (nat queue_timeout + 1))"



definition completion_flag_set :: "operation \<Rightarrow> on_flags \<Rightarrow> bool" where
  "completion_flag_set operation fl =
     (case operation of
        PerformCharaWrite uuid data write_without_response \<Rightarrow>
          desc_write_complete_flag fl \<or> chara_write_complete_flag fl
      | PerformDescriptorWrite chara desc data \<Rightarrow>
          desc_write_complete_flag fl \<or> chara_write_complete_flag fl
      | PerformReadOperation uuid is_descriptor \<Rightarrow>
          if is_descriptor then desc_read_complete_flag fl else chara_read_complete_flag fl)"

text \<open>
  The notions of the proof that the queue serialises: a device with the prepared
  profile \<open>pid\<close> is tracked; the closure that an operation leaves in its timer;
  every pending timer was started in the past and is due within one interval; the
  transport calls made since position \<open>n\<close> of the trace followed by those the queue
  still owes; and the invariant of the queue.
\<close>

definition ready :: "int \<Rightarrow> ble \<Rightarrow> bool" where
  "ready pid st =
     (case getCurrentlyConnectedDevice st of None \<Rightarrow> False | Some d \<Rightarrow> profile_pid d = Some pid)"

definition start_time_of :: "waiter \<Rightarrow> int" where
  "start_time_of w = (case w of WriteWaiter is_char t \<Rightarrow> t | ReadWaiter is_descriptor t \<Rightarrow> t)"

definition waiter_of :: "operation \<Rightarrow> int \<Rightarrow> waiter" where
  "waiter_of operation t =
     (case operation of
        PerformCharaWrite uuid data write_without_response \<Rightarrow> WriteWaiter True t
      | PerformDescriptorWrite chara desc data \<Rightarrow> WriteWaiter False t
      | PerformReadOperation uuid is_descriptor \<Rightarrow> ReadWaiter is_descriptor t)"

definition timers_sane :: "ble \<Rightarrow> bool" where
  "timers_sane st =
     list_all (\<lambda>t. start_time_of (snd t) \<le> now st \<and> fst t \<le> now st + queue_check_interval)
       (timers st)"

definition account :: "nat \<Rightarrow> int \<Rightarrow> ble \<Rightarrow> transport_call list" where
  "account n pid st =
     transport_calls (drop n (trace st)) @ map (transport_call_of pid) (operation_queue_arr st)"

definition queue_inv :: "nat \<Rightarrow> int \<Rightarrow> ble \<Rightarrow> bool" where
  "queue_inv n pid st =
     (ready pid st \<and> n \<le> length (trace st)
      \<and> foldl track (Some False) (drop n (trace st)) = Some (is_processing st)
      \<and> timers_sane st
      \<and> (if is_processing st then length (timers st) = 1
          else timers st = [] \<and> operation_queue_arr st = []))"

text \<open>
  What the queue still has to finish: the operations in the array and the one in
  flight.
\<close>

definition pending :: "ble \<Rightarrow> nat" where
  "pending st = length (operation_queue_arr st) + (if is_processing st then 1 else 0)"

text \<open>
  Example events: a characteristic write and a characteristic read are enqueued,
  and the completion event of the read arrives first.
\<close>

definition example_events :: "event list" where
  "example_events =
     [Enqueue (PerformCharaWrite ''2A19'' (DString ''01'') False),
      Enqueue (PerformReadOperation ''2A19'' False),
      Push CharaReadComplete 5 5]"

section \<open>Wildcard matching\<close>

lemma match_loop_nth:
  "length ms = length ps \<Longrightarrow>
   match_loop ms ps = (\<forall>i < length ps. ps ! i = ''xx'' \<or> ps ! i = ms ! i)"
proof (induction ms ps rule: match_loop.induct)
  case (1 m ms p ps)
  then have len: "length ms = length ps" by simp
  have "(\<forall>i < Suc (length ps). (p # ps) ! i = ''xx'' \<or> (p # ps) ! i = (m # ms) ! i) =
        ((p = ''xx'' \<or> p = m) \<and> (\<forall>i < length ps. ps ! i = ''xx'' \<or> ps ! i = ms ! i))"
    by (auto simp: less_Suc_eq_0_disj)
  with 1 len show ?case by auto
qed auto

lemma find_loop_None:
  "(find_loop macs p = None) = (\<forall>m \<in> set macs. \<not> isMacAddressMatch m p)"
  by (induction macs) auto

lemma find_loop_Some:
  "find_loop macs p = Some m \<Longrightarrow>
   \<exists>i < length macs. macs ! i = m \<and> isMacAddressMatch m p \<and>
                      (\<forall>j < i. \<not> isMacAddressMatch (macs ! j) p)"
proof (induction macs)
  case Nil
  then show ?case by simp
next
  case (Cons a macs)
  show ?case
  proof (cases "isMacAddressMatch a p")
    case True
    with Cons.prems have "a = m" by simp
    with True show ?thesis by (intro exI[of _ 0]) simp
  next
    case False
    with Cons.prems have "find_loop macs p = Some m" by simp
    from Cons.IH[OF this] obtain i where i: "i < length macs" "macs ! i = m"
      "isMacAddressMatch m p" "\<forall>j < i. \<not> isMacAddressMatch (macs ! j) p" by blast
    have "\<forall>j < Suc i. \<not> isMacAddressMatch ((a # macs) ! j) p"
      using False i(4) by (auto simp: less_Suc_eq_0_disj)
    with i show ?thesis by (intro exI[of _ "Suc i"]) simp
  qed
qed

text \<open>
  Claim C6. A pattern octet \<open>xx\<close> matches any address octet, every other pattern octet
  must equal the address octet at the same position, and an address with another
  number of octets never matches. The pattern \<open>11:xx:33:44:55:66\<close> matches the address
  \<open>11:22:33:44:55:66\<close> and does not match \<open>11:22:99:44:55:66\<close>. The wildcard lookup
  returns the first key of the registry that matches the lower-cased pattern, and
  the not-found value exactly when no key matches.
\<close>

theorem wildcard_match_and_lookup:
  "isMacAddressMatch mac pattern =
     (length (split_on CHR '':'' mac) = length (split_on CHR '':'' pattern) \<and>
      (\<forall>i < length (split_on CHR '':'' pattern).
          split_on CHR '':'' pattern ! i = ''xx'' \<or>
          split_on CHR '':'' pattern ! i = split_on CHR '':'' mac ! i))
   \<and> isMacAddressMatch ''11:22:33:44:55:66'' ''11:xx:33:44:55:66''
   \<and> \<not> isMacAddressMatch ''11:22:99:44:55:66'' ''11:xx:33:44:55:66''
   \<and> (case findMatchingMacAddress device_keys wanted of
         None \<Rightarrow> \<forall>m \<in> set device_keys. \<not> isMacAddressMatch m (toLowerCase wanted)
       | Some m \<Rightarrow>
           \<exists>i < length device_keys. device_keys ! i = m
              \<and> isMacAddressMatch m (toLowerCase wanted)
              \<and> (\<forall>j < i. \<not> isMacAddressMatch (device_keys ! j) (toLowerCase wanted)))"
proof (intro conjI)
  show "isMacAddressMatch mac pattern =
     (length (split_on CHR '':'' mac) = length (split_on CHR '':'' pattern) \<and>
      (\<forall>i < length (split_on CHR '':'' pattern).
          split_on CHR '':'' pattern ! i = ''xx'' \<or>
          split_on CHR '':'' pattern ! i = split_on CHR '':'' mac ! i))"
    by (auto simp: isMacAddressMatch_def Let_def match_loop_nth)
  show "isMacAddressMatch ''11:22:33:44:55:66'' ''11:xx:33:44:55:66''"
    by (simp add: isMacAddressMatch_def)
  show "\<not> isMacAddressMatch ''11:22:99:44:55:66'' ''11:xx:33:44:55:66''"
    by (simp add: isMacAddressMatch_def)
  show "case findMatchingMacAddress device_keys wanted of
         None \<Rightarrow> \<forall>m \<in> set device_keys. \<not> isMacAddressMatch m (toLowerCase wanted)
       | Some m \<Rightarrow>
           \<exists>i < length device_keys. device_keys ! i = m
              \<and> isMacAddressMatch m (toLowerCase wanted)
              \<and> (\<forall>j < i. \<not> isMacAddressMatch (device_keys ! j) (toLowerCase wanted))"
  proof (cases "find_loop device_keys (toLowerCase wanted)")
    case None
    moreover from None
    have "\<forall>m \<in> set device_keys. \<not> isMacAddressMatch m (toLowerCase wanted)"
      by (simp add: find_loop_None)
    ultimately show ?thesis by (simp add: findMatchingMacAddress_def)
  next
    case (Some m)
    from find_loop_Some[OF Some] Some show ?thesis
      by (simp add: findMatchingMacAddress_def)
  qed
qed

theorem wildcard_match_and_lookup_witness:
  "findMatchingMacAddress
     [''aa:bb:cc:dd:ee:ff'', ''11:22:33:44:55:66'', ''11:99:33:44:55:66'']
     ''11:XX:33:44:55:66'' = Some ''11:22:33:44:55:66''
   \<and> isMacAddressMatch ''11:22:33:44:55:66'' (toLowerCase ''11:XX:33:44:55:66'')"
proof -
  have found: "findMatchingMacAddress
     [''aa:bb:cc:dd:ee:ff'', ''11:22:33:44:55:66'', ''11:99:33:44:55:66'']
     ''11:XX:33:44:55:66'' = Some ''11:22:33:44:55:66''"
    by code_simp
  from wildcard_match_and_lookup
         [of "''11:22:33:44:55:66''" "''11:xx:33:44:55:66''"
             "[''aa:bb:cc:dd:ee:ff'', ''11:22:33:44:55:66'', ''11:99:33:44:55:66'']"
             "''11:XX:33:44:55:66''"]
  have "\<exists>i < length [''aa:bb:cc:dd:ee:ff'', ''11:22:33:44:55:66'', ''11:99:33:44:55:66''].
              [''aa:bb:cc:dd:ee:ff'', ''11:22:33:44:55:66'', ''11:99:33:44:55:66''] ! i
                    = ''11:22:33:44:55:66''
              \<and> isMacAddressMatch ''11:22:33:44:55:66'' (toLowerCase ''11:XX:33:44:55:66'')
              \<and> (\<forall>j < i. \<not> isMacAddressMatch
                     ([''aa:bb:cc:dd:ee:ff'', ''11:22:33:44:55:66'', ''11:99:33:44:55:66''] ! j)
                     (toLowerCase ''11:XX:33:44:55:66''))"
    by (elim conjE) (simp only: found option.case)
  then have "isMacAddressMatch ''11:22:33:44:55:66'' (toLowerCase ''11:XX:33:44:55:66'')"
    by blast
  with found show ?thesis by (intro conjI)
qed

section \<open>The example states, evaluated\<close>

lemma connected_example_eq:
  "connected_example =
     \<lparr>devices = [(''aa:bb:cc:dd:ee:ff'',
                  \<lparr>dev_name = Some ''default'', connect_id = Some 1, is_connected = True,
                   profile_pid = None\<rparr>)],
      last_connected_mac = Some ''aa:bb:cc:dd:ee:ff'', connection_in_progress = False,
      is_scanning = False, on_pid = None, off_defined = False,
      callbacks = no_callbacks, flags = no_flags,
      operation_queue_arr = [], is_processing = False, timers = [], now = 0,
      trace = [ConnectCallback \<lparr>connected = True, status = ''connected''\<rparr>]\<rparr>"
  by (simp add: connected_example_def mstConnect_callback_def new_BLEMaster_def get_device_def
        set_device_def handleSuccessfulConnection_def respond_def emit_def Let_def)

lemma dash_example_eq:
  "dash_example =
     \<lparr>devices = [(''aa-bb-cc-dd-ee-ff'',
                  \<lparr>dev_name = Some ''default'', connect_id = Some 1, is_connected = True,
                   profile_pid = None\<rparr>)],
      last_connected_mac = Some ''aa-bb-cc-dd-ee-ff'', connection_in_progress = False,
      is_scanning = False, on_pid = None, off_defined = False,
      callbacks = no_callbacks, flags = no_flags,
      operation_queue_arr = [], is_processing = False, timers = [], now = 0,
      trace = [ConnectCallback \<lparr>connected = True, status = ''connected''\<rparr>]\<rparr>"
  by (simp add: dash_example_def mstConnect_callback_def new_BLEMaster_def get_device_def
        set_device_def handleSuccessfulConnection_def respond_def emit_def Let_def)

lemma ready_example_eq:
  "ready_example =
     \<lparr>devices = [(''aa:bb:cc:dd:ee:ff'',
                  \<lparr>dev_name = Some ''default'', connect_id = Some 1, is_connected = True,
                   profile_pid = Some 5\<rparr>)],
      last_connected_mac = Some ''aa:bb:cc:dd:ee:ff'', connection_in_progress = False,
      is_scanning = False, on_pid = Some 5, off_defined = True,
      callbacks = no_callbacks\<lparr>cb_charaReadComplete := Some 42\<rparr>, flags = no_flags,
      operation_queue_arr = [], is_processing = False, timers = [], now = 0,
      trace = [ConnectCallback \<lparr>connected = True, status = ''connected''\<rparr>,
               Transport (MstOnEvent CharaReadComplete)]\<rparr>"
  by (simp add: ready_example_def connected_example_eq mstOnPrepare_success_def get_device_def
        set_device_def on_charaReadComplete_def emit_def)

lemma disconnected_example_eq:
  "disconnected_example =
     \<lparr>devices = [(''aa:bb:cc:dd:ee:ff'',
                  \<lparr>dev_name = Some ''default'', connect_id = Some 1, is_connected = True,
                   profile_pid = Some 5\<rparr>)],
      last_connected_mac = None, connection_in_progress = False,
      is_scanning = False, on_pid = Some 5, off_defined = True,
      callbacks = no_callbacks\<lparr>cb_charaReadComplete := Some 42\<rparr>, flags = no_flags,
      operation_queue_arr = [], is_processing = False, timers = [], now = 0,
      trace = [ConnectCallback \<lparr>connected = True, status = ''connected''\<rparr>,
               Transport (MstOnEvent CharaReadComplete),
               Transport (MstDisconnect (Some 1))]\<rparr>"
  by (simp add: disconnected_example_def ready_example_eq disconnect_def get_device_def emit_def)

lemma mac2ab_colon_example: "mac2ab ''aa:bb:cc:dd:ee:ff'' = [170, 187, 204, 221, 238, 255]"
  by code_simp

lemma mac2ab_dash_example: "mac2ab ''aa-bb-cc-dd-ee-ff'' = [170]"
  by code_simp

section \<open>The profile compiler\<close>

text \<open>
  Claim C3. When the tracked device is connected, has a numeric connection id and
  an address of six colon-separated pieces, \<open>generateProfileObject\<close> applied to
  \<open>{"180F": {"2A19": ["2902"]}}\<close> without permission overrides returns the profile
  object with one service node \<open>180F\<close>, holding one characteristic node \<open>2A19\<close> with
  permission 0x20, holding one descriptor node \<open>2902\<close> with permission 0x20; the
  counts \<open>len\<close> of the root, \<open>size\<close> and \<open>len\<close> of the service list, \<open>len1\<close> and \<open>len2\<close>
  of the service, \<open>desc\<close> and \<open>len\<close> of the characteristic are all 1.
\<close>

theorem battery_profile_tree:
  assumes "last_connected_mac st = Some dev_addr" and "dev_addr \<noteq> []"
    and "get_device st dev_addr = Some d" and "is_connected d"
    and "connect_id d = Some cid" and "length (mac2ab dev_addr) = 6"
  shows "generateProfileObject [(''180F'', [(''2A19'', [''2902''])])] no_permissions st =
     Profile
       \<lparr>po_pair = True, po_id = cid,
        po_profile = (case dev_name d of None \<Rightarrow> ''undefined''
                      | Some n \<Rightarrow> if n = [] then ''undefined'' else n),
        po_dev = mac2ab dev_addr, po_len = 1,
        po_list =
          [\<lparr>sl_uuid = True, sl_size = 1, sl_len = 1,
            sl_list =
              [\<lparr>serv_uuid = ''180F'', serv_permission = 0, serv_len1 = 1, serv_len2 = 1,
                serv_list =
                  [\<lparr>chara_uuid = ''2A19'', chara_permission = 0x20, chara_desc = 1,
                    chara_len = 1,
                    chara_list = Some [\<lparr>desc_uuid = ''2902'', desc_permission = 0x20\<rparr>]\<rparr>]\<rparr>]\<rparr>]\<rparr>"
  using assms
  by (simp add: generateProfileObject_def make_service_def make_characteristic_def
        make_descriptor_def permission_of_def no_permissions_def)

theorem battery_profile_tree_witness:
  "generateProfileObject [(''180F'', [(''2A19'', [''2902''])])] no_permissions connected_example =
     Profile
       \<lparr>po_pair = True, po_id = 1, po_profile = ''default'',
        po_dev = [170, 187, 204, 221, 238, 255], po_len = 1,
        po_list =
          [\<lparr>sl_uuid = True, sl_size = 1, sl_len = 1,
            sl_list =
              [\<lparr>serv_uuid = ''180F'', serv_permission = 0, serv_len1 = 1, serv_len2 = 1,
                serv_list =
                  [\<lparr>chara_uuid = ''2A19'', chara_permission = 32, chara_desc = 1,
                    chara_len = 1,
                    chara_list = Some [\<lparr>desc_uuid = ''2902'', desc_permission = 32\<rparr>]\<rparr>]\<rparr>]\<rparr>]\<rparr>"
  using battery_profile_tree
          [of connected_example "''aa:bb:cc:dd:ee:ff''"
              "\<lparr>dev_name = Some ''default'', connect_id = Some 1, is_connected = True,
                profile_pid = None\<rparr>" 1]
  by (simp add: connected_example_eq get_device_def mac2ab_colon_example)

text \<open>
  Claim C4, as the code has it. \<open>generateProfileObject\<close> returns the error object
  whenever no connected device is tracked, and whenever the tracked address does
  not split into six pieces. With a connected device, a numeric connection id and
  an address of six pieces, an empty services map is not an error: the result is
  the profile object whose service list is empty, with \<open>size\<close> and \<open>len\<close> 0.
\<close>

theorem generateProfileObject_errors:
  "(\<not> isConnected st \<longrightarrow> is_failure (generateProfileObject servs permissions st))
   \<and> (\<forall>mac. last_connected_mac st = Some mac \<and> length (mac2ab mac) \<noteq> 6
         \<longrightarrow> is_failure (generateProfileObject servs permissions st))
   \<and> (\<forall>mac d cid. last_connected_mac st = Some mac \<and> mac \<noteq> [] \<and> get_device st mac = Some d
          \<and> is_connected d \<and> connect_id d = Some cid \<and> length (mac2ab mac) = 6
         \<longrightarrow> generateProfileObject [] permissions st =
             Profile
               \<lparr>po_pair = True, po_id = cid,
                po_profile = (case dev_name d of None \<Rightarrow> ''undefined''
                              | Some n \<Rightarrow> if n = [] then ''undefined'' else n),
                po_dev = mac2ab mac, po_len = 1,
                po_list = [\<lparr>sl_uuid = True, sl_size = 0, sl_len = 0, sl_list = []\<rparr>]\<rparr>)"
  by (auto simp: generateProfileObject_def isConnected_def getCurrentlyConnectedDevice_def
        is_failure_def Let_def split: option.splits)

theorem generateProfileObject_errors_witness:
  "is_failure (generateProfileObject [] no_permissions (new_BLEMaster 0))
   \<and> is_failure (generateProfileObject [(''180F'', [])] no_permissions dash_example)
   \<and> generateProfileObject [] no_permissions connected_example =
       Profile
         \<lparr>po_pair = True, po_id = 1, po_profile = ''default'',
          po_dev = [170, 187, 204, 221, 238, 255], po_len = 1,
          po_list = [\<lparr>sl_uuid = True, sl_size = 0, sl_len = 0, sl_list = []\<rparr>]\<rparr>"
  using generateProfileObject_errors [of "new_BLEMaster 0" "[]" no_permissions]
        generateProfileObject_errors [of dash_example "[(''180F'', [])]" no_permissions]
        generateProfileObject_errors [of connected_example "[]" no_permissions]
  by (simp add: connected_example_eq dash_example_eq new_BLEMaster_def get_device_def
        isConnected_def getCurrentlyConnectedDevice_def mac2ab_colon_example
        mac2ab_dash_example)

theorem empty_services_counterexample:
  "\<not> is_failure (generateProfileObject [] no_permissions connected_example)"
  by (simp add: generateProfileObject_def connected_example_eq get_device_def
        mac2ab_colon_example is_failure_def)

section \<open>Properties of connect\<close>

lemma lower_example: "toLowerCase ''AA:BB:CC:DD:EE:FF'' = ''aa:bb:cc:dd:ee:ff''"
  by code_simp

lemma valid_example: "isValidMacAddress ''aa:bb:cc:dd:ee:ff''"
  by code_simp

lemma no_wildcard_example: "\<not> str_includes ''aa:bb:cc:dd:ee:ff'' ''xx''"
  by code_simp

lemma str_includes_mem: "str_includes s ''xx'' \<Longrightarrow> CHR ''x'' \<in> set s"
  by (induction s) (auto simp: take_Cons' split: if_splits)

lemma valid_has_no_wildcard:
  assumes "isValidMacAddress dev_addr"
  shows "\<not> str_includes dev_addr ''xx''"
proof -
  have "CHR ''x'' \<notin> set dev_addr"
  proof
    assume "CHR ''x'' \<in> set dev_addr"
    then obtain i where i: "i < length dev_addr" "dev_addr ! i = CHR ''x''"
      by (auto simp: in_set_conv_nth)
    with assms have "i < 17"
      and a: "list_all (\<lambda>i. if i mod 3 = 2 then dev_addr ! i = dev_addr ! 2
                             else is_hex_digit (dev_addr ! i)) [0 ..< 17]"
      and sep: "dev_addr ! 2 = CHR ''-'' \<or> dev_addr ! 2 = CHR '':''"
      by (auto simp: isValidMacAddress_def)
    from a \<open>i < 17\<close>
    have "if i mod 3 = 2 then dev_addr ! i = dev_addr ! 2 else is_hex_digit (dev_addr ! i)"
      unfolding list_all_iff by (metis atLeastLessThan_iff set_upt zero_le)
    with i(2) sep show False by (auto simp: is_hex_digit_def split: if_splits)
  qed
  then show ?thesis by (rule contrapos_nn) (rule str_includes_mem)
qed

text \<open>
  On a host that does not define \<open>attempt\<close> globally, \<open>connect\<close> throws for every
  lower-case address that passes the format check while nothing is connected or
  in progress: the call of \<open>#initiateConnection\<close> names three identifiers that no
  scope declares, and the first of them throws before the call is made.
\<close>

lemma connect_throws:
  assumes "isValidMacAddress dev_addr" and "toLowerCase dev_addr = dev_addr"
    and "\<not> connection_in_progress st" and "\<not> isConnected st"
    and "get_device st dev_addr = None" and "''attempt'' \<notin> set host_globals"
  shows "connect host_globals dev_addr st = (Inl (ReferenceError ''attempt''), st)"
proof -
  from assms(1) have ne: "dev_addr \<noteq> []" by (auto simp: isValidMacAddress_def)
  from assms(1) have nx: "\<not> str_includes dev_addr ''xx''" by (rule valid_has_no_wildcard)
  show ?thesis using assms ne nx
    by (simp add: connect_def Let_def resolves_def connect_parameters_def
          module_declarations_def)
qed

text \<open>
  On a host that defines the three names, the same call issues the one transport
  call and returns true.
\<close>

lemma connect_with_defined_globals:
  assumes "isValidMacAddress dev_addr" and "toLowerCase dev_addr = dev_addr"
    and "\<not> connection_in_progress st" and "\<not> isConnected st"
    and "get_device st dev_addr = None"
    and "{''attempt'', ''max_attempts'', ''timeout_duration''} \<subseteq> set host_globals"
  shows "connect host_globals dev_addr st =
           (Inr True, st\<lparr>connection_in_progress := True,
                         trace := trace st @ [Transport (MstConnect (mac2ab dev_addr))]\<rparr>)"
proof -
  from assms(1) have ne: "dev_addr \<noteq> []" by (auto simp: isValidMacAddress_def)
  from assms(1) have nx: "\<not> str_includes dev_addr ''xx''" by (rule valid_has_no_wildcard)
  show ?thesis using assms ne nx
    by (simp add: connect_def Let_def resolves_def connect_parameters_def
          initiateConnection_def emit_def)
qed

text \<open>
  Claim C2, at a failing input. On a fresh instance, in a host that defines the
  global names the module uses and no others, \<open>connect("AA:BB:CC:DD:EE:FF", cb)\<close>
  throws a \<open>ReferenceError\<close> for \<open>attempt\<close>; it leaves the state as it was, so it has
  issued no transport call, called no callback and returned nothing.
\<close>

theorem connect_throws_on_fresh_instance:
  "connect used_host_globals ''AA:BB:CC:DD:EE:FF'' (new_BLEMaster 0)
     = (Inl (ReferenceError ''attempt''), new_BLEMaster 0)"
  by (simp add: connect_def lower_example valid_example no_wildcard_example Let_def
       isConnected_def getCurrentlyConnectedDevice_def new_BLEMaster_def get_device_def
       resolves_def connect_parameters_def module_declarations_def used_host_globals_def)

text \<open>
  Claim C8, as the code has it. For every non-empty address whose lower-case form
  does not contain \<open>xx\<close>, if the tracked device is marked connected, whatever its
  address, \<open>connect\<close> calls its callback with \<open>{connected: true, status: "connected"}\<close>
  and returns true; the state changes in nothing else, so no transport call is
  issued, and the format of the address plays no part.
\<close>

theorem connect_when_connected:
  assumes "dev_addr \<noteq> []" and "\<not> str_includes (toLowerCase dev_addr) ''xx''"
    and "isConnected st"
  shows "connect host_globals dev_addr st =
           (Inr True,
            st\<lparr>trace := trace st @
                  [ConnectCallback \<lparr>connected = True, status = ''connected''\<rparr>]\<rparr>)"
  using assms by (simp add: connect_def Let_def respond_def emit_def)

lemma not_an_address_example: "toLowerCase ''not an address'' = ''not an address''"
  "\<not> str_includes ''not an address'' ''xx''"
  by code_simp+

theorem connect_when_connected_witness:
  "connect used_host_globals ''not an address'' connected_example =
     (Inr True,
      connected_example\<lparr>trace :=
        [ConnectCallback \<lparr>connected = True, status = ''connected''\<rparr>,
         ConnectCallback \<lparr>connected = True, status = ''connected''\<rparr>]\<rparr>)"
  using connect_when_connected [of "''not an address''" connected_example used_host_globals]
  by (simp add: not_an_address_example connected_example_eq isConnected_def
        getCurrentlyConnectedDevice_def get_device_def)

lemma upper_wildcard_example:
  "toLowerCase ''XX:22:33:44:55:66'' = ''xx:22:33:44:55:66''"
  "toLowerCase ''xx:22:33:44:55:66'' = ''xx:22:33:44:55:66''"
  "str_includes ''xx:22:33:44:55:66'' ''xx''"
  "\<not> str_includes ''XX:22:33:44:55:66'' ''xx''"
  "\<not> isMacAddressMatch ''aa:bb:cc:dd:ee:ff'' ''xx:22:33:44:55:66''"
  by code_simp+

text \<open>
  The address \<open>XX:22:33:44:55:66\<close> is not empty and does not contain \<open>xx\<close>, and the
  tracked device is connected; yet \<open>connect\<close> lower-cases the address, takes it for
  a pattern, finds no registry entry for it, reports \<open>device not found\<close> and
  returns false.
\<close>

theorem uppercase_wildcard_counterexample:
  "''XX:22:33:44:55:66'' \<noteq> [] \<and> \<not> str_includes ''XX:22:33:44:55:66'' ''xx''
   \<and> isConnected connected_example
   \<and> connect used_host_globals ''XX:22:33:44:55:66'' connected_example =
       (Inr False,
        connected_example\<lparr>trace := trace connected_example @
           [ConnectCallback \<lparr>connected = False, status = ''device not found''\<rparr>]\<rparr>)"
  by (simp add: connect_def upper_wildcard_example Let_def connected_example_eq isConnected_def
       getCurrentlyConnectedDevice_def get_device_def findMatchingMacAddress_def
       respond_def emit_def)

section \<open>Properties of quit\<close>

text \<open>What holds of \<open>quit\<close> in every state: a second call changes nothing more.\<close>

lemma quit_idempotent: "quit (quit st) = quit st"
  by (auto simp: quit_def Let_def stopScan_def emit_def deregisterAll_def disconnectDevice_def
       set_device_def get_device_def split: option.splits)

lemma quit_forgets_device:
  "last_connected_mac (quit st) = None \<or> last_connected_mac (quit st) = Some []"
  by (auto simp: quit_def Let_def stopScan_def emit_def deregisterAll_def disconnectDevice_def
       set_device_def get_device_def split: option.splits)

text \<open>
  With no tracked device \<open>quit\<close> does nothing at all: registered callbacks stay,
  and a running scan is not stopped.
\<close>

lemma quit_without_device: "last_connected_mac st = None \<Longrightarrow> quit st = st"
  by (simp add: quit_def)

text \<open>
  Claim C7, at a failing input. After a connection, a prepared profile, a
  subscription to the read-complete event and a successful \<open>disconnect()\<close>, no
  device is tracked any more; \<open>quit()\<close> then returns at once and the subscription
  stays registered.
\<close>

theorem quit_leaves_subscriptions:
  "quit disconnected_example = disconnected_example
   \<and> cb_charaReadComplete (callbacks (quit disconnected_example)) = Some 42"
  by (simp add: quit_def disconnected_example_eq no_callbacks_def)

section \<open>The operation queue serialises\<close>

text \<open>What \<open>execute\<close> changes, for any operation and any state.\<close>

lemmas exec_defs = execute_def performCharaWrite_def performDescriptorWrite_def
  performReadOperation_def waitForWriteCompletion_def waitForReadCompletion_def
  cb_check_completion_write_def cb_check_completion_read_def emit_def set_timeout_def

lemma execute_frame:
  "operation_queue_arr (snd (execute op st)) = operation_queue_arr st"
  "is_processing (snd (execute op st)) = is_processing st"
  "now (snd (execute op st)) = now st"
  "devices (snd (execute op st)) = devices st"
  "last_connected_mac (snd (execute op st)) = last_connected_mac st"
  by (simp_all add: exec_defs Let_def split: operation.splits option.splits)

lemma ready_cong:
  "devices st' = devices st \<Longrightarrow> last_connected_mac st' = last_connected_mac st \<Longrightarrow>
   ready pid st' = ready pid st"
  by (auto simp: ready_def getCurrentlyConnectedDevice_def get_device_def split: option.splits)

lemma readyD:
  "ready pid st \<Longrightarrow> \<exists>d. getCurrentlyConnectedDevice st = Some d \<and> profile_pid d = Some pid"
  by (simp add: ready_def split: option.splits)

lemma execute_trace:
  assumes "ready pid st"
  shows "trace (snd (execute op st)) =
     trace st @ Transport (transport_call_of pid op)
              # (if fst (execute op st) then [Continuation None] else [])"
proof -
  from readyD[OF assms] obtain d where
    d: "getCurrentlyConnectedDevice st = Some d" "profile_pid d = Some pid" by blast
  show ?thesis
    by (cases op)
       (simp_all add: exec_defs d transport_call_of_def Let_def queue_timeout_def)
qed

lemma execute_timers:
  assumes "ready pid st"
  shows "timers (snd (execute op st)) =
       (if fst (execute op st) then timers st
        else timers st @ [(now st + queue_check_interval, waiter_of op (now st))])"
proof -
  from readyD[OF assms] obtain d where
    d: "getCurrentlyConnectedDevice st = Some d" "profile_pid d = Some pid" by blast
  show ?thesis
    by (cases op)
       (simp_all add: exec_defs d Let_def queue_timeout_def waiter_of_def)
qed

lemma processQueue_busy: "is_processing st \<Longrightarrow> processQueue st = st"
  by (subst processQueue.simps) simp

lemma processQueue_empty: "operation_queue_arr st = [] \<Longrightarrow> processQueue st = st"
  by (subst processQueue.simps) simp

lemma transport_calls_append:
  "transport_calls (xs @ ys) = transport_calls xs @ transport_calls ys"
  by (induction xs rule: transport_calls.induct) auto

lemma start_time_of_waiter_of: "start_time_of (waiter_of op t) = t"
  by (simp add: start_time_of_def waiter_of_def split: operation.splits)

text \<open>
  \<open>processQueue\<close>, started while nothing is in flight, keeps the invariant of the
  queue and the account of calls made and owed, and leaves the clock alone; when
  it ends with an operation in flight, the array has become shorter.
\<close>

lemma processQueue_unfold:
  assumes "\<not> is_processing st" and "operation_queue_arr st = op # rest"
  shows "processQueue st =
     (let r = execute op (st\<lparr>is_processing := True, operation_queue_arr := rest\<rparr>)
      in if fst r then processQueue ((snd r)\<lparr>is_processing := False\<rparr>) else snd r)"
  using assms by (subst processQueue.simps) simp

lemma processQueue_inv:
  assumes "ready pid st" and "n \<le> length (trace st)"
    and "foldl track (Some False) (drop n (trace st)) = Some False"
    and "\<not> is_processing st" and "timers st = []"
  shows "queue_inv n pid (processQueue st)
       \<and> account n pid (processQueue st) = account n pid st
       \<and> now (processQueue st) = now st
       \<and> (is_processing (processQueue st) \<longrightarrow>
            length (operation_queue_arr (processQueue st)) < length (operation_queue_arr st))"
  using assms
proof (induction st rule: processQueue.induct)
  case (1 st)
  show ?case
  proof (cases "operation_queue_arr st")
    case Nil
    with 1(2-) show ?thesis
      by (simp add: processQueue_empty queue_inv_def timers_sane_def)
  next
    case (Cons op rest)
    define st1 where "st1 = st\<lparr>is_processing := True, operation_queue_arr := rest\<rparr>"
    define r where "r = execute op st1"
    have rdy1: "ready pid st1"
      using 1(2) ready_cong[of st1 st pid] by (simp add: st1_def)
    have tr: "trace (snd r) = trace st @ Transport (transport_call_of pid op)
              # (if fst r then [Continuation None] else [])"
      using execute_trace[OF rdy1, of op] by (simp add: r_def st1_def)
    have w: "timers (snd r) =
        (if fst r then [] else [(now st + queue_check_interval, waiter_of op (now st))])"
      using execute_timers[OF rdy1, of op] 1(6) by (simp add: r_def st1_def)
    have fr: "operation_queue_arr (snd r) = rest" "is_processing (snd r)"
      "now (snd r) = now st" "devices (snd r) = devices st"
      "last_connected_mac (snd r) = last_connected_mac st"
      by (simp_all add: r_def execute_frame st1_def)
    have unfold: "processQueue st =
        (if fst r then processQueue ((snd r)\<lparr>is_processing := False\<rparr>) else snd r)"
      using processQueue_unfold[OF 1(5) Cons] by (simp add: r_def st1_def Let_def)
    have req: "r = execute (hd (operation_queue_arr st))
                 (st\<lparr>is_processing := True, operation_queue_arr := tl (operation_queue_arr st)\<rparr>)"
      using Cons by (simp add: r_def st1_def)
    have busy: "\<not> (is_processing st \<or> operation_queue_arr st = [])"
      using 1(5) Cons by simp
    show ?thesis
    proof (cases "fst r")
      case True
      define st2 where "st2 = (snd r)\<lparr>is_processing := False\<rparr>"
      have p1: "ready pid st2"
        using 1(2) fr ready_cong[of st2 st pid] by (simp add: st2_def)
      have p2: "n \<le> length (trace st2)" using 1(3) tr by (simp add: st2_def)
      have p3: "foldl track (Some False) (drop n (trace st2)) = Some False"
        using 1(3,4) tr True by (simp add: st2_def)
      have p4: "\<not> is_processing st2" by (simp add: st2_def)
      have p5: "timers st2 = []" using w True by (simp add: st2_def)
      note ih = 1(1)[OF busy req True, folded st2_def, OF p1 p2 p3 p4 p5]
      have acc: "account n pid st2 = account n pid st"
        using 1(3) True tr fr Cons by (simp add: account_def st2_def transport_calls_append)
      have q: "operation_queue_arr st2 = rest" "now st2 = now st"
        using fr by (simp_all add: st2_def)
      have pq: "processQueue st = processQueue st2" using unfold True by (simp add: st2_def)
      from ih acc q Cons show ?thesis unfolding pq by auto
    next
      case False
      have "ready pid (snd r)"
        using 1(2) fr ready_cong[of "snd r" st pid] by simp
      then have "queue_inv n pid (snd r)"
        using 1(3,4) False tr w fr
        by (simp add: queue_inv_def timers_sane_def queue_check_interval_def
              start_time_of_waiter_of)
      moreover have "account n pid (snd r) = account n pid st"
        using 1(3) False tr fr Cons by (simp add: account_def transport_calls_append)
      ultimately show ?thesis using False unfold fr Cons by simp
    qed
  qed
qed

text \<open>Every event keeps the invariant; only an enqueued operation adds to the account.\<close>

lemmas waiter_defs = run_waiter_def cb_check_completion_write_def cb_check_completion_read_def
  emit_def set_timeout_def

lemma run_waiter_frame:
  "operation_queue_arr (snd (run_waiter w st)) = operation_queue_arr st"
  "is_processing (snd (run_waiter w st)) = is_processing st"
  "now (snd (run_waiter w st)) = now st"
  "devices (snd (run_waiter w st)) = devices st"
  "last_connected_mac (snd (run_waiter w st)) = last_connected_mac st"
  by (simp_all add: waiter_defs split: waiter.splits)

lemma run_waiter_fired:
  "fst (run_waiter w st) \<Longrightarrow>
   (\<exists>x. trace (snd (run_waiter w st)) = trace st @ [Continuation x])
   \<and> timers (snd (run_waiter w st)) = timers st"
  by (cases w) (auto simp: waiter_defs split: if_splits)

lemma run_waiter_waiting:
  "\<not> fst (run_waiter w st) \<Longrightarrow>
   trace (snd (run_waiter w st)) = trace st
   \<and> timers (snd (run_waiter w st)) = timers st @ [(now st + queue_check_interval, w)]
   \<and> flags (snd (run_waiter w st)) = flags st"
  by (cases w) (auto simp: waiter_defs split: if_splits)

lemma on_handler_frame:
  "operation_queue_arr (on_handler k i p st) = operation_queue_arr st"
  "is_processing (on_handler k i p st) = is_processing st"
  "now (on_handler k i p st) = now st"
  "devices (on_handler k i p st) = devices st"
  "last_connected_mac (on_handler k i p st) = last_connected_mac st"
  "trace (on_handler k i p st) = trace st"
  "timers (on_handler k i p st) = timers st"
  by (simp_all add: on_handler_def split: event_kind.splits)

lemma queue_inv_frame:
  assumes "queue_inv n pid st"
    and "devices st' = devices st" and "last_connected_mac st' = last_connected_mac st"
    and "trace st' = trace st" and "timers st' = timers st" and "now st' = now st"
    and "is_processing st' = is_processing st"
    and "operation_queue_arr st' = operation_queue_arr st"
  shows "queue_inv n pid st'"
  using assms ready_cong[of st' st pid] by (simp add: queue_inv_def timers_sane_def)

lemma step_Enqueue:
  assumes inv: "queue_inv n pid st"
  shows "queue_inv n pid (enqueueOperation op st)
       \<and> account n pid (enqueueOperation op st) = account n pid st @ [transport_call_of pid op]"
proof (cases "is_processing st")
  case True
  define st1 where "st1 = st\<lparr>operation_queue_arr := operation_queue_arr st @ [op]\<rparr>"
  have "processQueue st1 = st1" using True by (simp add: processQueue_busy st1_def)
  moreover have "queue_inv n pid st1"
    using inv True ready_cong[of st1 st pid] by (simp add: queue_inv_def st1_def timers_sane_def)
  moreover have "account n pid st1 = account n pid st @ [transport_call_of pid op]"
    by (simp add: account_def st1_def)
  ultimately show ?thesis by (simp add: enqueueOperation_def st1_def)
next
  case False
  define st1 where "st1 = st\<lparr>operation_queue_arr := operation_queue_arr st @ [op]\<rparr>"
  have p: "ready pid st1" "n \<le> length (trace st1)"
    "foldl track (Some False) (drop n (trace st1)) = Some False"
    "\<not> is_processing st1" "timers st1 = []"
    using inv False ready_cong[of st1 st pid] by (simp_all add: queue_inv_def st1_def)
  have "account n pid st1 = account n pid st @ [transport_call_of pid op]"
    by (simp add: account_def st1_def)
  with processQueue_inv[OF p] show ?thesis by (simp add: enqueueOperation_def st1_def)
qed

lemma step_TimerFires:
  assumes inv: "queue_inv n pid st"
  shows "queue_inv n pid (timer_fires i st)
       \<and> account n pid (timer_fires i st) = account n pid st"
proof (cases "i < length (timers st) \<and> fst (timers st ! i) \<le> now st")
  case False
  then have "timer_fires i st = st" by (auto simp: timer_fires_def)
  with inv show ?thesis by simp
next
  case True
  with inv have proc: "is_processing st" and len: "length (timers st) = 1"
    by (auto simp: queue_inv_def split: if_splits)
  with True have i0: "i = 0" by simp
  from len obtain due w where tw: "timers st = [(due, w)]"
    by (cases "timers st") auto
  define st1 where "st1 = st\<lparr>timers := []\<rparr>"
  define r where "r = run_waiter w st1"
  have tf: "timer_fires i st =
      (if fst r then processQueue ((snd r)\<lparr>is_processing := False\<rparr>) else snd r)"
    using True i0 tw by (simp add: timer_fires_def r_def st1_def Let_def)
  have fr: "operation_queue_arr (snd r) = operation_queue_arr st" "is_processing (snd r)"
    "now (snd r) = now st" "devices (snd r) = devices st"
    "last_connected_mac (snd r) = last_connected_mac st"
    using proc by (simp_all add: r_def run_waiter_frame st1_def)
  from inv have rdy: "ready pid st" and nl: "n \<le> length (trace st)"
    and trk: "foldl track (Some False) (drop n (trace st)) = Some True"
    and sane: "start_time_of w \<le> now st"
    using proc tw by (simp_all add: queue_inv_def timers_sane_def)
  show ?thesis
  proof (cases "fst r")
    case fired: True
    from run_waiter_fired[of w st1] fired obtain x where
      x: "trace (snd r) = trace st @ [Continuation x]" "timers (snd r) = []"
      by (auto simp: r_def st1_def)
    define st2 where "st2 = (snd r)\<lparr>is_processing := False\<rparr>"
    have p: "ready pid st2" "n \<le> length (trace st2)"
      "foldl track (Some False) (drop n (trace st2)) = Some False"
      "\<not> is_processing st2" "timers st2 = []"
      using rdy nl trk x fr ready_cong[of st2 st pid] by (simp_all add: st2_def)
    have "account n pid st2 = account n pid st"
      using nl x fr by (simp add: account_def st2_def transport_calls_append)
    with processQueue_inv[OF p] fired tf show ?thesis by (simp add: st2_def)
  next
    case waiting: False
    from run_waiter_waiting[of w st1] waiting have
      x: "trace (snd r) = trace st"
         "timers (snd r) = [(now st + queue_check_interval, w)]"
      by (auto simp: r_def st1_def)
    have "ready pid (snd r)" using rdy fr ready_cong[of "snd r" st pid] by simp
    then have "queue_inv n pid (snd r)"
      using nl trk x fr sane by (simp add: queue_inv_def timers_sane_def)
    moreover have "account n pid (snd r) = account n pid st"
      using x fr by (simp add: account_def)
    ultimately show ?thesis using waiting tf by simp
  qed
qed

lemma step_inv:
  assumes inv: "queue_inv n pid st"
  shows "queue_inv n pid (step e st)
       \<and> account n pid (step e st) = account n pid st @ map (transport_call_of pid) (enqueued [e])"
proof (cases e)
  case (Enqueue op)
  with step_Enqueue[OF inv, of op] show ?thesis by simp
next
  case (TimerFires i)
  with step_TimerFires[OF inv, of i] show ?thesis by simp
next
  case (Advance ms)
  have "queue_inv n pid (st\<lparr>now := now st + int ms\<rparr>)"
    using inv ready_cong[of "st\<lparr>now := now st + int ms\<rparr>" st pid]
    by (auto simp: queue_inv_def timers_sane_def list_all_iff)
  with Advance show ?thesis by (simp add: account_def)
next
  case (Push k i p)
  have "queue_inv n pid (on_handler k i p st)"
    using inv by (rule queue_inv_frame) (simp_all add: on_handler_frame)
  with Push show ?thesis by (simp add: account_def on_handler_frame)
qed

lemma enqueued_append: "enqueued (xs @ ys) = enqueued xs @ enqueued ys"
  by (induction xs rule: enqueued.induct) auto

lemma run_append: "run (xs @ ys) st = run ys (run xs st)"
  by (induction xs arbitrary: st) auto

lemma run_inv:
  "queue_inv n pid st \<Longrightarrow>
   queue_inv n pid (run evs st)
   \<and> account n pid (run evs st) = account n pid st @ map (transport_call_of pid) (enqueued evs)"
proof (induction evs arbitrary: st)
  case Nil
  then show ?case by simp
next
  case (Cons e evs)
  from step_inv[OF Cons.prems, of e] have
    s: "queue_inv n pid (step e st)"
       "account n pid (step e st) = account n pid st @ map (transport_call_of pid) (enqueued [e])"
    by auto
  from Cons.IH[OF s(1)] s(2) show ?case
    using enqueued_append[of "[e]" evs] by simp
qed

text \<open>
  Progress: a round in which the clock passes the timeout and the pending timer
  runs finishes the operation in flight.
\<close>

lemma run_waiter_timeout:
  "now st - start_time_of w > queue_timeout \<Longrightarrow> fst (run_waiter w st)"
  by (cases w) (simp_all add: waiter_defs start_time_of_def)

lemma timer_fires_timeout:
  assumes inv: "queue_inv n pid st" and proc: "is_processing st"
    and late: "\<forall>t \<in> set (timers st). fst t \<le> now st \<and> now st - start_time_of (snd t) > queue_timeout"
  shows "pending (timer_fires 0 st) < pending st"
proof -
  from inv proc have len: "length (timers st) = 1" by (simp add: queue_inv_def)
  then obtain due w where tw: "timers st = [(due, w)]" by (cases "timers st") auto
  with late have due: "due \<le> now st" and lt: "now st - start_time_of w > queue_timeout" by auto
  define st1 where "st1 = st\<lparr>timers := []\<rparr>"
  define r where "r = run_waiter w st1"
  have fired: "fst r" using lt run_waiter_timeout[of st1 w] by (simp add: r_def st1_def)
  have tf: "timer_fires 0 st = processQueue ((snd r)\<lparr>is_processing := False\<rparr>)"
    using tw due fired by (simp add: timer_fires_def r_def st1_def Let_def)
  have fr: "operation_queue_arr (snd r) = operation_queue_arr st"
    "now (snd r) = now st" "devices (snd r) = devices st"
    "last_connected_mac (snd r) = last_connected_mac st"
    by (simp_all add: r_def run_waiter_frame st1_def)
  from inv proc have rdy: "ready pid st" and nl: "n \<le> length (trace st)"
    and trk: "foldl track (Some False) (drop n (trace st)) = Some True"
    by (simp_all add: queue_inv_def)
  from run_waiter_fired[of w st1] fired obtain x where
    x: "trace (snd r) = trace st @ [Continuation x]" "timers (snd r) = []"
    by (auto simp: r_def st1_def)
  define st2 where "st2 = (snd r)\<lparr>is_processing := False\<rparr>"
  have p: "ready pid st2" "n \<le> length (trace st2)"
    "foldl track (Some False) (drop n (trace st2)) = Some False"
    "\<not> is_processing st2" "timers st2 = []"
    using rdy nl trk x fr ready_cong[of st2 st pid] by (simp_all add: st2_def)
  from processQueue_inv[OF p] have
    q: "queue_inv n pid (processQueue st2)"
       "is_processing (processQueue st2) \<longrightarrow>
          length (operation_queue_arr (processQueue st2)) < length (operation_queue_arr st2)"
    by auto
  have "pending (processQueue st2) < pending st"
  proof (cases "is_processing (processQueue st2)")
    case True
    with q(2) fr proc show ?thesis by (simp add: pending_def st2_def)
  next
    case False
    with q(1) have "operation_queue_arr (processQueue st2) = []" by (simp add: queue_inv_def)
    with False proc show ?thesis by (simp add: pending_def)
  qed
  with tf show ?thesis by (simp add: st2_def)
qed

lemma settle_round:
  assumes inv: "queue_inv n pid st"
  shows "queue_inv n pid (run [Advance (nat queue_timeout + 1), TimerFires 0] st)
       \<and> (pending (run [Advance (nat queue_timeout + 1), TimerFires 0] st) < pending st
          \<or> pending (run [Advance (nat queue_timeout + 1), TimerFires 0] st) = 0)"
proof -
  define st1 where "st1 = step (Advance (nat queue_timeout + 1)) st"
  have inv1: "queue_inv n pid st1" unfolding st1_def using step_inv[OF inv] by blast
  from step_inv[OF inv1, of "TimerFires 0"] have inv2: "queue_inv n pid (timer_fires 0 st1)"
    by simp
  have fr: "is_processing st1 = is_processing st" "timers st1 = timers st"
    "operation_queue_arr st1 = operation_queue_arr st"
    "now st1 = now st + queue_timeout + 1"
    by (simp_all add: st1_def queue_timeout_def)
  show ?thesis
  proof (cases "is_processing st")
    case True
    from inv have "\<forall>t \<in> set (timers st). start_time_of (snd t) \<le> now st
        \<and> fst t \<le> now st + queue_check_interval"
      by (simp add: queue_inv_def timers_sane_def list_all_iff)
    then have late: "\<forall>t \<in> set (timers st1). fst t \<le> now st1
        \<and> now st1 - start_time_of (snd t) > queue_timeout"
      using fr by (auto simp: queue_timeout_def queue_check_interval_def)
    from timer_fires_timeout[OF inv1 _ late] True fr
    have "pending (timer_fires 0 st1) < pending st" by (simp add: pending_def)
    with inv2 show ?thesis by (simp add: st1_def)
  next
    case False
    with inv have "timers st = []" "operation_queue_arr st = []" by (simp_all add: queue_inv_def)
    with fr have "timer_fires 0 st1 = st1" by (simp add: timer_fires_def)
    with False fr \<open>operation_queue_arr st = []\<close> have "pending (timer_fires 0 st1) = 0"
      by (simp add: pending_def)
    with inv2 show ?thesis by (simp add: st1_def)
  qed
qed

lemma settle_Suc:
  "settle (Suc k) = [Advance (nat queue_timeout + 1), TimerFires 0] @ settle k"
  by (simp add: settle_def)

lemma settle_idle:
  "queue_inv n pid st \<Longrightarrow> pending st \<le> k \<Longrightarrow> pending (run (settle k) st) = 0"
proof (induction k arbitrary: st)
  case 0
  then show ?case by (simp add: settle_def)
next
  case (Suc k)
  define st' where "st' = run [Advance (nat queue_timeout + 1), TimerFires 0] st"
  from settle_round[OF Suc.prems(1)] have inv': "queue_inv n pid st'"
    and less: "pending st' < pending st \<or> pending st' = 0" by (simp_all add: st'_def)
  from less Suc.prems(2) have "pending st' \<le> k" by auto
  from Suc.IH[OF inv' this] show ?case
    unfolding settle_Suc run_append st'_def .
qed

lemma track_None: "foldl track None tr = None"
  by (induction tr) auto

lemma track_in_flight:
  "foldl track (Some False) tr = Some True \<Longrightarrow> transport_calls tr \<noteq> []"
proof (induction tr rule: rev_induct)
  case Nil
  then show ?case by simp
next
  case (snoc e tr)
  show ?case
  proof (cases e)
    case (Transport c)
    then show ?thesis by (simp add: transport_calls_append)
  next
    case (ConnectCallback r)
    with snoc.prems have "foldl track (Some False) tr = Some True"
      by (cases "foldl track (Some False) tr") auto
    from snoc.IH[OF this] show ?thesis by (simp add: transport_calls_append)
  next
    case (Continuation r)
    with snoc.prems show ?thesis
      by (cases "foldl track (Some False) tr") auto
  qed
qed

lemma pending_bound:
  assumes "queue_inv n pid st"
  shows "pending st \<le> length (account n pid st)"
proof (cases "is_processing st")
  case True
  with assms have "foldl track (Some False) (drop n (trace st)) = Some True"
    by (simp add: queue_inv_def)
  from track_in_flight[OF this] have "length (transport_calls (drop n (trace st))) \<ge> 1"
    by (cases "transport_calls (drop n (trace st))") auto
  with True show ?thesis by (simp add: pending_def account_def)
next
  case False
  then show ?thesis by (simp add: pending_def account_def)
qed

lemma data2ab_example: "data2ab (DString ''01'') = [1]"
  by code_simp


text \<open>
  Claim C1. Let a device with a prepared profile be tracked, and the queue be at
  rest. Then after any sequence of events (operations being enqueued, timers
  running, the clock advancing, completion events arriving in any order), no
  transport call has been issued while an earlier one still waited for its
  continuation, and the calls issued so far, followed by those of the operations
  still in the array, are the calls of the enqueued operations in the order of
  enqueuing. Once the host has let the timers run long enough, the calls issued
  are exactly those of the \<open>N\<close> enqueued operations, in that order, still one at a
  time.
\<close>

theorem queue_serialises_operations:
  assumes "getCurrentlyConnectedDevice st0 = Some d" and "profile_pid d = Some pid"
    and "\<not> is_processing st0" and "operation_queue_arr st0 = []" and "timers st0 = []"
  shows "one_at_a_time (drop (length (trace st0)) (trace (run evs st0)))
     \<and> transport_calls (drop (length (trace st0)) (trace (run evs st0)))
         @ map (transport_call_of pid) (operation_queue_arr (run evs st0))
       = map (transport_call_of pid) (enqueued evs)
     \<and> one_at_a_time (drop (length (trace st0))
                        (trace (run (evs @ settle (length (enqueued evs))) st0)))
     \<and> transport_calls (drop (length (trace st0))
                           (trace (run (evs @ settle (length (enqueued evs))) st0)))
       = map (transport_call_of pid) (enqueued evs)"
proof -
  define n where "n = length (trace st0)"
  have inv0: "queue_inv n pid st0"
    using assms by (simp add: queue_inv_def ready_def timers_sane_def n_def)
  have acc0: "account n pid st0 = []" using assms by (simp add: account_def n_def)
  define st where "st = run evs st0"
  from run_inv[OF inv0, of evs] acc0 have inv: "queue_inv n pid st"
    and acc: "account n pid st = map (transport_call_of pid) (enqueued evs)"
    by (simp_all add: st_def)
  define st' where "st' = run (settle (length (enqueued evs))) st"
  have en: "enqueued (settle k) = []" for k
    by (induction k) (simp_all add: settle_def)
  from run_inv[OF inv, of "settle (length (enqueued evs))"] acc have inv': "queue_inv n pid st'"
    and acc': "account n pid st' = map (transport_call_of pid) (enqueued evs)"
    by (simp_all add: st'_def en)
  from pending_bound[OF inv] acc have "pending st \<le> length (enqueued evs)" by simp
  from settle_idle[OF inv this] have "pending st' = 0" by (simp add: st'_def)
  then have idle: "operation_queue_arr st' = []" by (simp add: pending_def)
  have 1: "one_at_a_time (drop n (trace st))" using inv by (simp add: queue_inv_def one_at_a_time_def)
  have 2: "transport_calls (drop n (trace st)) @ map (transport_call_of pid) (operation_queue_arr st)
       = map (transport_call_of pid) (enqueued evs)" using acc by (simp add: account_def)
  have 3: "one_at_a_time (drop n (trace st'))" using inv' by (simp add: queue_inv_def one_at_a_time_def)
  have 4: "transport_calls (drop n (trace st')) = map (transport_call_of pid) (enqueued evs)"
    using acc' idle by (simp add: account_def)
  from 1 2 3 4 show ?thesis by (simp add: st_def st'_def n_def run_append)
qed

theorem queue_serialises_operations_witness:
  "one_at_a_time (drop 2 (trace (run example_events ready_example)))
   \<and> transport_calls (drop 2 (trace (run (example_events @ settle 2) ready_example)))
       = [MstWriteCharacteristic 5 ''2A19'' [1] 1, MstReadCharacteristic 5 ''2A19'']"
proof -
  have h1: "getCurrentlyConnectedDevice ready_example =
      Some \<lparr>dev_name = Some ''default'', connect_id = Some 1, is_connected = True,
            profile_pid = Some 5\<rparr>"
    by (simp add: ready_example_eq getCurrentlyConnectedDevice_def get_device_def)
  have h2: "profile_pid \<lparr>dev_name = Some ''default'', connect_id = Some 1, is_connected = True,
            profile_pid = Some 5\<rparr> = Some 5" by simp
  have h3: "\<not> is_processing ready_example" "operation_queue_arr ready_example = []"
    "timers ready_example = []" by (simp_all add: ready_example_eq)
  have len: "length (trace ready_example) = 2" by (simp add: ready_example_eq)
  have enq: "enqueued example_events =
      [PerformCharaWrite ''2A19'' (DString ''01'') False, PerformReadOperation ''2A19'' False]"
    by (simp add: example_events_def)
  have calls: "map (transport_call_of 5) (enqueued example_events) =
      [MstWriteCharacteristic 5 ''2A19'' [1] 1, MstReadCharacteristic 5 ''2A19'']"
    by (simp add: enq transport_call_of_def data2ab_example)
  have n2: "length (enqueued example_events) = 2" by (simp add: enq)
  from queue_serialises_operations[OF h1 h2 h3, of example_events]
  show ?thesis unfolding len calls n2 by blast
qed


section \<open>Operations without a prepared profile\<close>

text \<open>
  Claim C9. When no device is tracked, or the tracked device has no stored profile
  handle, executing a queued read or write makes no transport call and calls the
  continuation at once without an argument; a completion that succeeds calls it
  without an argument as well, so the two cannot be told apart.
\<close>

theorem not_ready_operation_completes_silently:
  assumes "getCurrentlyConnectedDevice st = None
           \<or> (\<exists>d. getCurrentlyConnectedDevice st = Some d \<and> profile_pid d = None)"
  shows "execute operation st = (True, st\<lparr>trace := trace st @ [Continuation None]\<rparr>)
       \<and> (fst (run_waiter w st') \<and> \<not> now st' - start_time_of w > queue_timeout
             \<longrightarrow> trace (snd (run_waiter w st')) = trace st' @ [Continuation None])"
proof
  from assms show "execute operation st = (True, st\<lparr>trace := trace st @ [Continuation None]\<rparr>)"
    by (cases operation) (auto simp: exec_defs)
  show "fst (run_waiter w st') \<and> \<not> now st' - start_time_of w > queue_timeout
             \<longrightarrow> trace (snd (run_waiter w st')) = trace st' @ [Continuation None]"
    by (cases w) (auto simp: waiter_defs start_time_of_def split: if_splits)
qed

theorem not_ready_operation_completes_silently_witness:
  "execute (PerformReadOperation ''2A19'' False) (new_BLEMaster 0)
     = (True, (new_BLEMaster 0)\<lparr>trace := [Continuation None]\<rparr>)
   \<and> execute (PerformCharaWrite ''2A19'' (DString ''01'') False) connected_example
     = (True, connected_example\<lparr>trace :=
          [ConnectCallback \<lparr>connected = True, status = ''connected''\<rparr>, Continuation None]\<rparr>)
   \<and> trace (snd (run_waiter (ReadWaiter False 0)
                   (on_handler CharaReadComplete 5 5 ready_example)))
     = [ConnectCallback \<lparr>connected = True, status = ''connected''\<rparr>,
        Transport (MstOnEvent CharaReadComplete), Continuation None]"
proof -
  have a: "getCurrentlyConnectedDevice (new_BLEMaster 0) = None"
    by (simp add: getCurrentlyConnectedDevice_def new_BLEMaster_def)
  have b: "getCurrentlyConnectedDevice connected_example =
      Some \<lparr>dev_name = Some ''default'', connect_id = Some 1, is_connected = True,
            profile_pid = None\<rparr>"
    by (simp add: getCurrentlyConnectedDevice_def connected_example_eq get_device_def)
  have c: "fst (run_waiter (ReadWaiter False 0) (on_handler CharaReadComplete 5 5 ready_example))"
    "\<not> now (on_handler CharaReadComplete 5 5 ready_example)
          - start_time_of (ReadWaiter False 0) > queue_timeout"
    by (simp_all add: run_waiter_def cb_check_completion_read_def on_handler_def
          ready_example_eq start_time_of_def queue_timeout_def)
  have t: "trace (on_handler CharaReadComplete 5 5 ready_example) =
     [ConnectCallback \<lparr>connected = True, status = ''connected''\<rparr>,
        Transport (MstOnEvent CharaReadComplete)]"
    by (simp add: on_handler_def ready_example_eq)
  from not_ready_operation_completes_silently
         [of "new_BLEMaster 0" "PerformReadOperation ''2A19'' False" "ReadWaiter False 0"
             "on_handler CharaReadComplete 5 5 ready_example"] a c t
  have 1: "execute (PerformReadOperation ''2A19'' False) (new_BLEMaster 0)
     = (True, (new_BLEMaster 0)\<lparr>trace := [Continuation None]\<rparr>)"
    and 3: "trace (snd (run_waiter (ReadWaiter False 0)
                   (on_handler CharaReadComplete 5 5 ready_example)))
     = [ConnectCallback \<lparr>connected = True, status = ''connected''\<rparr>,
        Transport (MstOnEvent CharaReadComplete), Continuation None]"
    by (simp_all add: new_BLEMaster_def)
  from not_ready_operation_completes_silently
         [of connected_example "PerformCharaWrite ''2A19'' (DString ''01'') False"
             "ReadWaiter False 0" "on_handler CharaReadComplete 5 5 ready_example"] b
  have 2: "execute (PerformCharaWrite ''2A19'' (DString ''01'') False) connected_example
     = (True, connected_example\<lparr>trace :=
          [ConnectCallback \<lparr>connected = True, status = ''connected''\<rparr>, Continuation None]\<rparr>)"
    by (simp add: connected_example_eq)
  from 1 2 3 show ?thesis by blast
qed

section \<open>The completion flags of writes\<close>

text \<open>
  Claim C10, as the code has it. The timeout is tested before the flags. A check
  of the write waiter that is made no later than the timeout after the issue calls the
  continuation exactly when the descriptor-write flag or the characteristic-write
  flag is set, whichever kind of write is pending; it then calls it without an
  error, both flags are false afterwards, and a pending characteristic write and a
  pending descriptor write are treated alike.
\<close>

theorem write_flags_interchangeable:
  assumes "\<not> now st - start_time > queue_timeout"
  shows "fst (cb_check_completion_write is_char start_time st)
           = (desc_write_complete_flag (flags st) \<or> chara_write_complete_flag (flags st))
       \<and> (desc_write_complete_flag (flags st) \<or> chara_write_complete_flag (flags st) \<longrightarrow>
            trace (snd (cb_check_completion_write is_char start_time st))
              = trace st @ [Continuation None]
            \<and> \<not> desc_write_complete_flag
                  (flags (snd (cb_check_completion_write is_char start_time st)))
            \<and> \<not> chara_write_complete_flag
                  (flags (snd (cb_check_completion_write is_char start_time st)))
            \<and> cb_check_completion_write True start_time st
                = cb_check_completion_write False start_time st)"
  using assms by (simp add: cb_check_completion_write_def emit_def set_timeout_def)

theorem write_flags_interchangeable_witness:
  "fst (cb_check_completion_write False 0 (on_handler CharaWriteComplete 5 5 ready_example))
   \<and> trace (snd (cb_check_completion_write False 0
                    (on_handler CharaWriteComplete 5 5 ready_example)))
       = [ConnectCallback \<lparr>connected = True, status = ''connected''\<rparr>,
          Transport (MstOnEvent CharaReadComplete), Continuation None]
   \<and> \<not> chara_write_complete_flag
         (flags (snd (cb_check_completion_write False 0
                        (on_handler CharaWriteComplete 5 5 ready_example))))"
proof -
  have a: "\<not> now (on_handler CharaWriteComplete 5 5 ready_example) - 0 > queue_timeout"
    by (simp add: on_handler_def ready_example_eq queue_timeout_def)
  have b: "chara_write_complete_flag (flags (on_handler CharaWriteComplete 5 5 ready_example))"
    by (simp add: on_handler_def ready_example_eq)
  have t: "trace (on_handler CharaWriteComplete 5 5 ready_example) =
     [ConnectCallback \<lparr>connected = True, status = ''connected''\<rparr>,
        Transport (MstOnEvent CharaReadComplete)]"
    by (simp add: on_handler_def ready_example_eq)
  from write_flags_interchangeable[OF a, of False] b t show ?thesis by simp
qed

section \<open>The timeout of an operation\<close>


lemma run_waiter_keeps_waiting:
  assumes "\<not> completion_flag_set op (flags st)" and "now st - t0 \<le> queue_timeout"
  shows "run_waiter (waiter_of op t0) st =
           (False, st\<lparr>timers := timers st @ [(now st + queue_check_interval, waiter_of op t0)]\<rparr>)"
  using assms
  by (cases op) (auto simp: waiter_defs waiter_of_def completion_flag_set_def)




text \<open>
  While the flag stays unset and the timeout has not elapsed, a round (the clock
  advances, the timer is asked to run) changes the clock and the pending timer
  only.
\<close>

lemma round_within:
  assumes "timers st = [(due, waiter_of op t0)]"
    and "\<not> completion_flag_set op (flags st)"
    and "now st + int dl - t0 \<le> queue_timeout"
  shows "\<exists>due'. run [Advance dl, TimerFires 0] st = st\<lparr>now := now st + int dl, timers := [(due', waiter_of op t0)]\<rparr>
        \<and> (due \<le> now st + int dl \<longrightarrow> due' = now st + int dl + queue_check_interval)"
proof (cases "due \<le> now st + int dl")
  case True
  define st1 where "st1 = st\<lparr>now := now st + int dl, timers := []\<rparr>"
  have "run_waiter (waiter_of op t0) st1 =
     (False, st1\<lparr>timers := timers st1 @ [(now st1 + queue_check_interval, waiter_of op t0)]\<rparr>)"
    using assms by (intro run_waiter_keeps_waiting) (simp_all add: st1_def)
  then show ?thesis using assms True
    by (simp add: timer_fires_def st1_def Let_def)
next
  case False
  then show ?thesis using assms
    by (intro exI[of _ due]) (simp add: timer_fires_def)
qed


lemma exact_polls_within:
  assumes "timers st = [(now st + queue_check_interval, waiter_of op t0)]"
    and "\<not> completion_flag_set op (flags st)"
    and "now st + int k * queue_check_interval - t0 \<le> queue_timeout"
  shows "run (exact_polls k) st =
           st\<lparr>now := now st + int k * queue_check_interval,
              timers := [(now st + int k * queue_check_interval + queue_check_interval,
                          waiter_of op t0)]\<rparr>"
  using assms
proof (induction k arbitrary: st)
  case 0
  then show ?case by (simp add: exact_polls_def)
next
  case (Suc k)
  have ci: "int (nat queue_check_interval) = queue_check_interval" "queue_check_interval \<ge> 0"
    by (simp_all add: queue_check_interval_def)
  from Suc.prems(3) ci have w: "now st + int (nat queue_check_interval) - t0 \<le> queue_timeout"
    by (simp add: algebra_simps) (smt (verit) mult_nonneg_nonneg of_nat_0_le_iff)
  from round_within[OF Suc.prems(1,2) w] ci have
    r: "run [Advance (nat queue_check_interval), TimerFires 0] st =
         st\<lparr>now := now st + queue_check_interval,
            timers := [(now st + queue_check_interval + queue_check_interval, waiter_of op t0)]\<rparr>"
    by auto
  define st1 where "st1 = st\<lparr>now := now st + queue_check_interval,
            timers := [(now st + queue_check_interval + queue_check_interval, waiter_of op t0)]\<rparr>"
  have p: "timers st1 = [(now st1 + queue_check_interval, waiter_of op t0)]"
    "\<not> completion_flag_set op (flags st1)"
    "now st1 + int k * queue_check_interval - t0 \<le> queue_timeout"
    using Suc.prems by (simp_all add: st1_def algebra_simps)
  have "run (exact_polls (Suc k)) st = run (exact_polls k) st1"
    using r by (simp add: exact_polls_def st1_def)
  with Suc.IH[OF p] show ?case by (simp add: st1_def algebra_simps)
qed



lemma polls_due_within:
  assumes "timers st = [(now st + queue_check_interval, waiter_of op t0)]"
    and "\<not> completion_flag_set op (flags st)"
    and "\<forall>dl \<in> set ds. queue_check_interval \<le> int dl"
    and "now st + int (sum_list ds) - t0 \<le> queue_timeout"
  shows "run (polls ds) st =
           st\<lparr>now := now st + int (sum_list ds),
              timers := [(now st + int (sum_list ds) + queue_check_interval, waiter_of op t0)]\<rparr>"
  using assms
proof (induction ds arbitrary: st)
  case Nil
  then show ?case by simp
next
  case (Cons dl ds)
  from Cons.prems(3) have ge: "queue_check_interval \<le> int dl" by simp
  from Cons.prems(4) have w: "now st + int dl - t0 \<le> queue_timeout" by simp
  from round_within[OF Cons.prems(1,2) w] ge have
    r: "run [Advance dl, TimerFires 0] st =
         st\<lparr>now := now st + int dl,
            timers := [(now st + int dl + queue_check_interval, waiter_of op t0)]\<rparr>"
    by auto
  define st1 where "st1 = st\<lparr>now := now st + int dl,
            timers := [(now st + int dl + queue_check_interval, waiter_of op t0)]\<rparr>"
  have p: "timers st1 = [(now st1 + queue_check_interval, waiter_of op t0)]"
    "\<not> completion_flag_set op (flags st1)"
    "\<forall>dl \<in> set ds. queue_check_interval \<le> int dl"
    "now st1 + int (sum_list ds) - t0 \<le> queue_timeout"
    using Cons.prems by (simp_all add: st1_def algebra_simps)
  have "run (polls (dl # ds)) st = run (polls ds) st1"
    using r by (simp add: st1_def)
  with Cons.IH[OF p] show ?case by (simp add: st1_def algebra_simps)
qed








section \<open>A completion flag set after the timeout\<close>

text \<open>
  A descriptor write is issued at time 0 and polled every 100 ms. Its completion
  flag is set at 5050 ms, while the write is still pending. The next check, at
  5100 ms, tests the timeout first: the continuation is called with the timeout
  error of descriptor writes, not with success, and the flag stays set.
\<close>

lemma data2ab_cccd_example: "data2ab (DString ''0100'') = [1, 0]"
  by code_simp

lemma execute_desc_write_example:
  "snd (execute (PerformDescriptorWrite ''2A19'' ''2902'' (DString ''0100'')) ready_example) =
     ready_example\<lparr>trace := trace ready_example
                        @ [Transport (MstWriteDescriptor 5 ''2A19'' ''2902'' [1, 0] 2)],
                   timers := [(100, WriteWaiter False 0)]\<rparr>"
  by (simp add: exec_defs ready_example_eq getCurrentlyConnectedDevice_def get_device_def
        no_flags_def queue_timeout_def queue_check_interval_def data2ab_cccd_example)


theorem flag_set_after_timeout_counterexample:
  "desc_write_complete_flag
     (flags (run (polls (replicate 50 100) @ [Advance 50, Push DescWriteComplete 5 5, Advance 50])
               (snd (execute (PerformDescriptorWrite ''2A19'' ''2902'' (DString ''0100''))
                       ready_example))))
   \<and> trace (run (polls (replicate 50 100)
                  @ [Advance 50, Push DescWriteComplete 5 5, Advance 50, TimerFires 0])
               (snd (execute (PerformDescriptorWrite ''2A19'' ''2902'' (DString ''0100''))
                       ready_example)))
     = trace (snd (execute (PerformDescriptorWrite ''2A19'' ''2902'' (DString ''0100''))
                     ready_example))
         @ [Continuation (Some ERR_DESC_WRITE_OPERATION_TIMEOUT)]
   \<and> desc_write_complete_flag
     (flags (run (polls (replicate 50 100)
                  @ [Advance 50, Push DescWriteComplete 5 5, Advance 50, TimerFires 0])
               (snd (execute (PerformDescriptorWrite ''2A19'' ''2902'' (DString ''0100''))
                       ready_example))))"
proof -
  define st1 where
    "st1 = snd (execute (PerformDescriptorWrite ''2A19'' ''2902'' (DString ''0100'')) ready_example)"
  have st1: "st1 = ready_example\<lparr>trace := trace ready_example
                        @ [Transport (MstWriteDescriptor 5 ''2A19'' ''2902'' [1, 0] 2)],
                   timers := [(100, WriteWaiter False 0)]\<rparr>"
    by (simp add: st1_def execute_desc_write_example)
  have w: "waiter_of (PerformDescriptorWrite ''2A19'' ''2902'' (DString ''0100'')) 0
             = WriteWaiter False 0"
    by (simp add: waiter_of_def)
  have t1: "timers st1 = [(now st1 + queue_check_interval,
              waiter_of (PerformDescriptorWrite ''2A19'' ''2902'' (DString ''0100'')) 0)]"
    and f1: "\<not> completion_flag_set (PerformDescriptorWrite ''2A19'' ''2902'' (DString ''0100''))
                 (flags st1)"
    by (simp_all add: st1 w ready_example_eq queue_check_interval_def completion_flag_set_def
          no_flags_def)
  have due: "\<forall>dl \<in> set (replicate 50 (100::nat)). queue_check_interval \<le> int dl"
    by (simp add: queue_check_interval_def)
  have within: "now st1 + int (sum_list (replicate 50 100)) - 0 \<le> queue_timeout"
    by (simp add: st1 ready_example_eq sum_list_replicate queue_timeout_def)
  define st2 where "st2 = run (polls (replicate 50 100)) st1"
  from polls_due_within[OF t1 f1 due within] have
    st2: "st2 = st1\<lparr>now := 5000, timers := [(5100, WriteWaiter False 0)]\<rparr>"
    by (simp add: st2_def w sum_list_replicate queue_check_interval_def st1 ready_example_eq)
  have before: "run [Advance 50, Push DescWriteComplete 5 5, Advance 50] st2 =
      st1\<lparr>now := 5100, timers := [(5100, WriteWaiter False 0)],
          flags := (flags st1)\<lparr>desc_write_complete_flag := True\<rparr>\<rparr>"
    by (simp add: st2 on_handler_def)
  have after: "run [Advance 50, Push DescWriteComplete 5 5, Advance 50, TimerFires 0] st2 =
      st1\<lparr>now := 5100, timers := [],
          flags := (flags st1)\<lparr>desc_write_complete_flag := True\<rparr>,
          trace := trace st1 @ [Continuation (Some ERR_DESC_WRITE_OPERATION_TIMEOUT)],
          is_processing := False\<rparr>"
    by (simp add: st2 on_handler_def timer_fires_def run_waiter_def cb_check_completion_write_def
          emit_def queue_timeout_def Let_def processQueue_empty st1 ready_example_eq)
  show ?thesis
    unfolding st1_def[symmetric] run_append st2_def[symmetric] before after by simp
qed

end
